theory Spec2Isabelle
  imports Main "HOL-Library.AList" "HOL-Library.Char_ord" "HOL-Library.List_Lexorder"
    "HOL-Library.Multiset" "HOL-Library.Signed_Division"
begin

section \<open>Go values used by pkg/notify/notify.go\<close>

text \<open>
  A Go \<^verbatim>\<open>error\<close> is modelled by its message, a \<^verbatim>\<open>time.Time\<close> by its instant in
  nanoseconds counted from the zero Time (so \<^verbatim>\<open>time.Time{}\<close> is 0, and the location is
  not part of the model) and a \<^verbatim>\<open>time.Duration\<close> by its nanoseconds. Times decoded from
  JSON lie within the years 0..9999 and a Duration spans at most 292 years, far from
  the bounds where \<^verbatim>\<open>Time.Add\<close> saturates, so sums are sums of integers.
\<close>

type_synonym error = string
type_synonym Time = int
type_synonym Duration = int

text \<open>
  A call either returns or panics. The panics of the model are the nil pointer
  dereferences notify.go can run into.
\<close>

datatype 'a outcome = Panic string | Return 'a

text \<open>
  The two library functions whose output is opaque here are parameters of the model:
  \<open>Quote\<close> is what the verb \<^verbatim>\<open>%q\<close> of package fmt prints for a string
  (\<^verbatim>\<open>strconv.Quote\<close>), and \<open>Sum512hex\<close> is the verb \<^verbatim>\<open>%x\<close> applied to the SHA-512
  digest of the bytes written to the hash.
\<close>

record golib =
  Quote :: "string \<Rightarrow> string"
  Sum512hex :: "string \<Rightarrow> string"

definition dquote :: char where
  "dquote = CHR 0x22"

text \<open>\<^verbatim>\<open>errors.Wrap(err, message)\<close>: the message, a colon, the cause.\<close>

definition Wrap :: "error \<Rightarrow> string \<Rightarrow> error" where
  "Wrap err message = message @ '': '' @ err"

text \<open>\<^verbatim>\<open>errors.Wrapf\<close> returns nil when the error it is given is nil.\<close>

definition Wrapf :: "error option \<Rightarrow> string \<Rightarrow> error option" where
  "Wrapf err message = (case err of None \<Rightarrow> None | Some e \<Rightarrow> Some (Wrap e message))"

text \<open>\<^verbatim>\<open>strings.Replace(s, " ", "", -1)\<close>.\<close>

definition stripSpaces :: "string \<Rightarrow> string" where
  "stripSpaces s = filter (\<lambda>c. c \<noteq> CHR '' '') s"

section \<open>Maps and the store\<close>

text \<open>
  \<^verbatim>\<open>alertmanager.KV\<close> is a Go \<^verbatim>\<open>map[string]string\<close>. Its content is an association list
  with one pair per key; the order of the list stands for the order in which a
  \<^verbatim>\<open>range\<close> over the map happens to visit it. A Go map is a reference: copying an Alert
  copies the reference, not the pairs. So the fields of type KV hold references into
  a store, and the functions that write to a map take the store and return it.
  A nil map reads as the empty map and is never written by notify.go, so it is a
  reference to an empty cell.
\<close>

type_synonym KV = "(string \<times> string) list"
type_synonym ref = nat

record heap =
  cells :: "ref \<Rightarrow> KV"
  next_ref :: ref

text \<open>\<^verbatim>\<open>make(alertmanager.KV)\<close>: a fresh, empty map.\<close>

definition make_KV :: "heap \<Rightarrow> ref \<times> heap" where
  "make_KV h = (next_ref h, h\<lparr>cells := (cells h)(next_ref h := []), next_ref := Suc (next_ref h)\<rparr>)"

text \<open>\<^verbatim>\<open>v, ok := m[k]\<close> and \<^verbatim>\<open>m[k]\<close>: a missing key reads as the empty string.\<close>

definition lookup :: "KV \<Rightarrow> string \<Rightarrow> string \<times> bool" where
  "lookup m k = (case map_of m k of None \<Rightarrow> ('''', False) | Some v \<Rightarrow> (v, True))"

definition index :: "KV \<Rightarrow> string \<Rightarrow> string" where
  "index m k = fst (lookup m k)"

text \<open>\<^verbatim>\<open>delete(m, k)\<close> and \<^verbatim>\<open>m[k] = v\<close>, on the map a reference points to.\<close>

definition delete_key :: "ref \<Rightarrow> string \<Rightarrow> heap \<Rightarrow> heap" where
  "delete_key m k h = h\<lparr>cells := (cells h)(m := AList.delete k (cells h m))\<rparr>"

definition assign :: "ref \<Rightarrow> string \<Rightarrow> string \<Rightarrow> heap \<Rightarrow> heap" where
  "assign m k v h = h\<lparr>cells := (cells h)(m := AList.update k v (cells h m))\<rparr>"

text \<open>
  Modelled from the spec: \<^verbatim>\<open>KV.SortedPairs\<close> is declared in pkg/alertmanager, which is
  not among the sources. Section 4.2: "derive purely from sorted group labels", "Sort
  order: lexicographic by label name". Strings compare bytewise, as Go's do.
\<close>

definition SortedPairs :: "KV \<Rightarrow> (string \<times> string) list" where
  "SortedPairs kv = sort_key fst kv"

section \<open>Alerts and notifications (pkg/alertmanager)\<close>

text \<open>
  Modelled from the spec: the types \<^verbatim>\<open>Alert\<close> and \<^verbatim>\<open>Data\<close>, the status constants and
  \<^verbatim>\<open>Alerts.Firing\<close> are declared in pkg/alertmanager, which is not among the sources.
  Section 3 lists the fields; the records keep those notify.go reads or writes.
  Field names that two Go types share carry a suffix here.
\<close>

definition AlertFiring :: string where
  "AlertFiring = ''firing''"

definition AlertResolved :: string where
  "AlertResolved = ''resolved''"

record Alert =
  Status :: string
  Labels :: ref
  Annotations :: ref

record Data =
  Receiver_d :: string
  Status_d :: string
  Alerts :: "Alert list"
  GroupLabels :: ref
  CommonLabels :: ref
  CommonAnnotations :: ref
  ExternalURL :: string
  Version :: string
  GroupKey :: string

definition Firing :: "Alert list \<Rightarrow> Alert list" where
  "Firing as = filter (\<lambda>a. Status a = AlertFiring) as"

section \<open>The ticketing system (package go-jira)\<close>

text \<open>
  The types of the client library, with the fields notify.go reads or writes. A Go
  pointer that may be nil is an option: \<^verbatim>\<open>Issue.Fields\<close>, \<^verbatim>\<open>IssueFields.Status\<close>
  (kept by its \<^verbatim>\<open>StatusCategory.Key\<close>), \<^verbatim>\<open>IssueFields.Resolution\<close> (kept by its
  \<^verbatim>\<open>Name\<close>), \<^verbatim>\<open>IssueFields.Priority\<close> (kept by its \<^verbatim>\<open>Name\<close>) and the
  \<^verbatim>\<open>Request\<close> of a Response (kept by its URL as \<^verbatim>\<open>%s\<close> prints it), which line 521
  of notify.go itself tests for nil. The embedded \<^verbatim>\<open>*http.Response\<close> of a
  \<^verbatim>\<open>jira.Response\<close> and its Body are taken as present.
\<close>

text \<open>
  The values of the custom fields of the configuration (\<^verbatim>\<open>interface{}\<close> in Go):
  nil, a string, a slice or array, a map (its keys are values too: a key that is
  not a string is dropped by the copy), or any other scalar, kept as printed.
\<close>

datatype jvalue =
    VNil
  | VString string
  | VSeq "jvalue list"
  | VMap "(jvalue \<times> jvalue) list"
  | VScalar string

record IssueFields =
  Project_f :: string
  Type_f :: string
  Description_f :: string
  Summary_f :: string
  Labels_f :: "string list"
  Unknowns_f :: "(string \<times> jvalue) list"
  Priority_f :: "string option"
  Components_f :: "string list"
  Status_f :: "string option"
  Resolution_f :: "string option"
  Resolutiondate_f :: Time

record Issue =
  Key :: string
  ID :: string
  Fields_i :: "IssueFields option"

record Transition =
  ID_t :: string
  Name_t :: string

record Response =
  StatusCode :: int
  Status_r :: string
  Request :: "string option"
  Body :: string

record SearchOptions =
  Fields_o :: "string list"
  MaxResults :: int

text \<open>The zero value of \<^verbatim>\<open>jira.IssueFields\<close>.\<close>

definition zeroIssueFields :: IssueFields where
  "zeroIssueFields =
    \<lparr>Project_f = '''', Type_f = '''', Description_f = '''', Summary_f = '''', Labels_f = [],
     Unknowns_f = [], Priority_f = None, Components_f = [], Status_f = None,
     Resolution_f = None, Resolutiondate_f = 0\<rparr>"

text \<open>
  The interface \<^verbatim>\<open>jiraIssueService\<close> (lines 38-45). An implementation is any five
  functions over a state \<open>'s\<close> of its own (the ticketing system behind it, or the memory
  of a fake); each answers and moves the state on. \<^verbatim>\<open>UpdateWithOptions\<close> is always
  called with nil options, which are left out.
\<close>

record 's jiraIssueService =
  Search :: "string \<Rightarrow> SearchOptions \<Rightarrow> 's \<Rightarrow> (Issue list \<times> Response option \<times> error option) \<times> 's"
  GetTransitions :: "string \<Rightarrow> 's \<Rightarrow> (Transition list \<times> Response option \<times> error option) \<times> 's"
  Create :: "Issue \<Rightarrow> 's \<Rightarrow> (Issue option \<times> Response option \<times> error option) \<times> 's"
  UpdateWithOptions :: "Issue \<Rightarrow> 's \<Rightarrow> (Issue option \<times> Response option \<times> error option) \<times> 's"
  DoTransition :: "string \<Rightarrow> string \<Rightarrow> 's \<Rightarrow> (Response option \<times> error option) \<times> 's"

text \<open>
  What a run does to the outside: the state of the ticketing system, and the calls
  made to it, oldest first.
\<close>

datatype call =
    SearchCall string SearchOptions
  | GetTransitionsCall string
  | CreateCall Issue
  | UpdateWithOptionsCall Issue
  | DoTransitionCall string string

record 's world =
  jira :: 's
  calls :: "call list"

definition client_Search ::
  "'s jiraIssueService \<Rightarrow> string \<Rightarrow> SearchOptions \<Rightarrow> 's world
    \<Rightarrow> (Issue list \<times> Response option \<times> error option) \<times> 's world" where
  "client_Search c jql options w =
    (case Search c jql options (jira w) of
      (res, s) \<Rightarrow> (res, \<lparr>jira = s, calls = calls w @ [SearchCall jql options]\<rparr>))"

definition client_GetTransitions ::
  "'s jiraIssueService \<Rightarrow> string \<Rightarrow> 's world
    \<Rightarrow> (Transition list \<times> Response option \<times> error option) \<times> 's world" where
  "client_GetTransitions c ident w =
    (case GetTransitions c ident (jira w) of
      (res, s) \<Rightarrow> (res, \<lparr>jira = s, calls = calls w @ [GetTransitionsCall ident]\<rparr>))"

definition client_Create ::
  "'s jiraIssueService \<Rightarrow> Issue \<Rightarrow> 's world
    \<Rightarrow> (Issue option \<times> Response option \<times> error option) \<times> 's world" where
  "client_Create c issue w =
    (case Create c issue (jira w) of
      (res, s) \<Rightarrow> (res, \<lparr>jira = s, calls = calls w @ [CreateCall issue]\<rparr>))"

definition client_UpdateWithOptions ::
  "'s jiraIssueService \<Rightarrow> Issue \<Rightarrow> 's world
    \<Rightarrow> (Issue option \<times> Response option \<times> error option) \<times> 's world" where
  "client_UpdateWithOptions c issue w =
    (case UpdateWithOptions c issue (jira w) of
      (res, s) \<Rightarrow> (res, \<lparr>jira = s, calls = calls w @ [UpdateWithOptionsCall issue]\<rparr>))"

definition client_DoTransition ::
  "'s jiraIssueService \<Rightarrow> string \<Rightarrow> string \<Rightarrow> 's world
    \<Rightarrow> (Response option \<times> error option) \<times> 's world" where
  "client_DoTransition c ticketID transitionID w =
    (case DoTransition c ticketID transitionID (jira w) of
      (res, s) \<Rightarrow> (res, \<lparr>jira = s, calls = calls w @ [DoTransitionCall ticketID transitionID]\<rparr>))"

text \<open>The calls that drive the workflow, and the calls that change a ticket.\<close>

fun is_transition_call :: "call \<Rightarrow> bool" where
  "is_transition_call (GetTransitionsCall _) = True"
| "is_transition_call (DoTransitionCall _ _) = True"
| "is_transition_call _ = False"

fun is_mutating_call :: "call \<Rightarrow> bool" where
  "is_mutating_call (CreateCall _) = True"
| "is_mutating_call (UpdateWithOptionsCall _) = True"
| "is_mutating_call (DoTransitionCall _ _) = True"
| "is_mutating_call _ = False"

section \<open>Configuration, templates and the Receiver\<close>

text \<open>
  Modelled from the spec: \<^verbatim>\<open>config.ReceiverConfig\<close> and the grouping constants
  \<^verbatim>\<open>config.AlertGroup\<close>, \<^verbatim>\<open>config.AlertRule\<close> and \<^verbatim>\<open>config.Alert\<close> are declared in
  pkg/config, which is not among the sources. Section 3 names the three grouping modes;
  \<^verbatim>\<open>GroupIssueBy\<close> is a string in the code, so it can also be empty (\<open>Unset\<close>) or any
  other text (\<open>Other\<close>, standing for a string that is none of the three constants and
  not empty). \<^verbatim>\<open>AutoResolve\<close> is a pointer to a struct with the one field
  \<^verbatim>\<open>State\<close>, and \<^verbatim>\<open>ReopenDuration\<close> is a pointer to a Duration.
\<close>

datatype GroupMode = AlertGroup | AlertRule | ByAlert | Unset | Other string

record ReceiverConfig =
  Project :: string
  IssueType :: string
  Summary :: string
  Description :: string
  Priority :: string
  Components :: "string list"
  Fields :: "(string \<times> jvalue) list"
  IssueIdentifierLabel :: string
  AddCommonLabels :: bool
  AddGroupLabels :: bool
  AutoResolve :: "string option"
  WontFixResolution :: string
  ReopenState :: string
  ReopenDuration :: "Duration option"
  GroupIssueBy :: GroupMode

text \<open>
  Modelled from the spec: \<^verbatim>\<open>template.Template\<close> is declared in pkg/template, which is
  not among the sources. Section 6: "render(templateString, data) -> (string, error)".
  The data is a notification, read through the store.
\<close>

record Template =
  Execute :: "string \<Rightarrow> heap \<Rightarrow> Data \<Rightarrow> error + string"

text \<open>
  The Receiver (lines 48-56), without its logger. \<^verbatim>\<open>timeNow\<close> reads a clock of the
  outside world.
\<close>

record 's Receiver =
  client :: "'s jiraIssueService"
  conf :: ReceiverConfig
  tmpl :: Template
  timeNow :: "'s \<Rightarrow> Time"

section \<open>Grouping (lines 63-158)\<close>

text \<open>\<^verbatim>\<open>toAlert\<close> (lines 64-84): one notification per alert.\<close>

definition toAlert :: "Data \<Rightarrow> Data list" where
  "toAlert d =
    map (\<lambda>a. \<lparr>Receiver_d = Receiver_d d, Status_d = Status a, Alerts = [a],
               GroupLabels = GroupLabels d, CommonLabels = Labels a,
               CommonAnnotations = Annotations a, ExternalURL = ExternalURL d,
               Version = Version d, GroupKey = GroupKey d\<rparr>)
      (Alerts d)"

text \<open>
  The first loop of \<^verbatim>\<open>toAlertRule\<close> (lines 91-119), one alert at a time. The map
  \<^verbatim>\<open>alertsData\<close> is an association list in the order of first insertion. A new entry
  gets two fresh maps; \<^verbatim>\<open>Receiver\<close> and \<^verbatim>\<open>Version\<close> keep their zero value.
\<close>

definition addAlert ::
  "Data \<Rightarrow> Alert \<Rightarrow> heap \<times> (string \<times> Data) list \<Rightarrow> heap \<times> (string \<times> Data) list" where
  "addAlert d alert st =
    (case st of (h, alertsData) \<Rightarrow>
      (case lookup (cells h (Labels alert)) ''alertname'' of (name, ok) \<Rightarrow>
        if \<not> ok then (h, alertsData)
        else
          (case
            (case map_of alertsData name of
              Some data \<Rightarrow> (data, h)
            | None \<Rightarrow>
                (case make_KV h of (annotations, h1) \<Rightarrow>
                  (case make_KV h1 of (labels, h2) \<Rightarrow>
                    (\<lparr>Receiver_d = '''', Status_d = AlertResolved, Alerts = [],
                      GroupLabels = GroupLabels d, CommonLabels = labels,
                      CommonAnnotations = annotations, ExternalURL = ExternalURL d,
                      Version = '''', GroupKey = GroupKey d\<rparr>, h2))))
           of (data, h') \<Rightarrow>
            (let data = data\<lparr>Alerts := Alerts data @ [alert]\<rparr>;
                 data = (if Status alert = AlertFiring then data\<lparr>Status_d := AlertFiring\<rparr> else data)
             in (h', AList.update name data alertsData)))))"

text \<open>
  Lines 135-139 and 140-144: a range over the common map that deletes, from that very
  map, each key the alert reads differently. The range visits the pairs the map had
  when it started; a visit deletes at most the pair it is at.
\<close>

definition pruneLabels :: "ref \<Rightarrow> Alert \<Rightarrow> heap \<Rightarrow> heap" where
  "pruneLabels commonLabels a h =
    fold (\<lambda>(ln, lv) h. if index (cells h (Labels a)) ln \<noteq> lv then delete_key commonLabels ln h else h)
      (cells h commonLabels) h"

definition pruneAnnotations :: "ref \<Rightarrow> Alert \<Rightarrow> heap \<Rightarrow> heap" where
  "pruneAnnotations commonAnnotations a h =
    fold (\<lambda>(an, av) h. if index (cells h (Annotations a)) an \<noteq> av then delete_key commonAnnotations an h else h)
      (cells h commonAnnotations) h"

text \<open>Lines 131-145: the loop over \<^verbatim>\<open>data.Alerts[1:]\<close>, with its \<^verbatim>\<open>break\<close>.\<close>

fun shrinkCommon :: "ref \<Rightarrow> ref \<Rightarrow> Alert list \<Rightarrow> heap \<Rightarrow> heap" where
  "shrinkCommon commonLabels commonAnnotations [] h = h"
| "shrinkCommon commonLabels commonAnnotations (a # as) h =
    (if cells h commonLabels = [] \<and> cells h commonAnnotations = [] then h
     else shrinkCommon commonLabels commonAnnotations as
            (pruneAnnotations commonAnnotations a (pruneLabels commonLabels a h)))"

text \<open>Lines 146-148 and 149-151: every pair of one map is stored in another.\<close>

definition copyInto :: "ref \<Rightarrow> ref \<Rightarrow> heap \<Rightarrow> heap" where
  "copyInto src dst h = fold (\<lambda>(k, v) h. assign dst k v h) (cells h src) h"

text \<open>
  Lines 126-152, for one entry of \<^verbatim>\<open>alertsData\<close>. \<^verbatim>\<open>commonLabels\<close> and
  \<^verbatim>\<open>commonAnnotations\<close> are the maps of the first alert themselves, not copies.
\<close>

definition commonOf :: "Data \<Rightarrow> heap \<Rightarrow> heap" where
  "commonOf data h =
    (case Alerts data of
      [] \<Rightarrow> h
    | a # as \<Rightarrow>
        (let commonLabels = Labels a;
             commonAnnotations = Annotations a;
             h = shrinkCommon commonLabels commonAnnotations as h;
             h = copyInto commonLabels (CommonLabels data) h;
             h = copyInto commonAnnotations (CommonAnnotations data) h
         in h))"

text \<open>
  \<^verbatim>\<open>toAlertRule\<close> (lines 87-158). The range over \<^verbatim>\<open>alertsData\<close> (lines 125-155) visits
  the entries in the order of the association list.
\<close>

definition toAlertRule :: "Data \<Rightarrow> heap \<Rightarrow> Data list \<times> heap" where
  "toAlertRule d h =
    (case fold (addAlert d) (Alerts d) (h, []) of (h1, alertsData) \<Rightarrow>
      fold (\<lambda>(name, data) (slice, h). (slice @ [data], commonOf data h)) alertsData ([], h1))"

section \<open>Identity label (lines 377-420)\<close>

definition toGroupTicketLabel :: "golib \<Rightarrow> KV \<Rightarrow> bool \<Rightarrow> string" where
  "toGroupTicketLabel L labels hashJiraLabel =
    (if hashJiraLabel then
       ''JIRALERT{''
         @ Sum512hex L (concat (map (\<lambda>(n, v). n @ ''='' @ Quote L v @ '','') (SortedPairs labels)))
         @ ''}''
     else
       (let buf = ''ALERT{'' @ concat (map (\<lambda>(n, v). n @ ''='' @ Quote L v @ '','') (SortedPairs labels));
            buf = take (length buf - 1) buf;
            buf = buf @ ''}''
        in stripSpaces buf))"

definition toIssueIdentifierLabel ::
  "golib \<Rightarrow> 's Receiver \<Rightarrow> heap \<Rightarrow> Data \<Rightarrow> bool \<Rightarrow> error + string" where
  "toIssueIdentifierLabel L r h data hashJiraLabel =
    (if IssueIdentifierLabel (conf r) = '''' then
       Inr (toGroupTicketLabel L (cells h (GroupLabels data)) hashJiraLabel)
     else
       (case Execute (tmpl r) (IssueIdentifierLabel (conf r)) h data of
         Inl err \<Rightarrow> Inl err
       | Inr label \<Rightarrow> Inr (stripSpaces label)))"

section \<open>Calls to the ticketing system (lines 422-560)\<close>

definition nilDereference :: string where
  "nilDereference = ''invalid memory address or nil pointer dereference''"

text \<open>
  \<^verbatim>\<open>handleJiraErrResponse\<close> (lines 520-534), without its logging. Line 531 reads
  \<^verbatim>\<open>resp.Request.URL\<close> whether or not the Request is nil.
\<close>

definition handleJiraErrResponse ::
  "golib \<Rightarrow> string \<Rightarrow> Response option \<Rightarrow> error option \<Rightarrow> (bool \<times> error option) outcome" where
  "handleJiraErrResponse L api resp err =
    (case resp of
      None \<Rightarrow> Return (False, Wrapf err (''JIRA request '' @ api @ '' failed''))
    | Some rsp \<Rightarrow>
        if StatusCode rsp sdiv 100 \<noteq> 2 then
          (let retry = (StatusCode rsp = 500 \<or> StatusCode rsp = 503)
           in case Request rsp of
               None \<Rightarrow> Panic nilDereference
             | Some url \<Rightarrow>
                 Return (retry, Some (''JIRA request '' @ url @ '' returned status '' @ Status_r rsp
                                       @ '', body '' @ Quote L (Body rsp))))
        else Return (False, Wrapf err (''JIRA request '' @ api @ '' failed'')))"

text \<open>\<^verbatim>\<open>search\<close> (lines 422-448).\<close>

definition search ::
  "golib \<Rightarrow> 's Receiver \<Rightarrow> string \<Rightarrow> string \<Rightarrow> 's world
    \<Rightarrow> (Issue option \<times> bool \<times> error option) outcome \<times> 's world" where
  "search L r project issueLabel w =
    (let query = ''project='' @ [dquote] @ project @ [dquote] @ '' and labels=''
                   @ Quote L issueLabel @ '' order by resolutiondate desc'';
         options = \<lparr>Fields_o = [''summary'', ''status'', ''resolution'', ''resolutiondate''],
                    MaxResults = 2\<rparr>
     in case client_Search (client r) query options w of
         ((issues, resp, Some err), w1) \<Rightarrow>
           (case handleJiraErrResponse L ''Issue.Search'' resp (Some err) of
             Panic p \<Rightarrow> (Panic p, w1)
           | Return (retry, err') \<Rightarrow> (Return (None, retry, err'), w1))
       | ((issues, resp, None), w1) \<Rightarrow>
           (case issues of
             [] \<Rightarrow> (Return (None, False, None), w1)
           | issue # _ \<Rightarrow> (Return (Some issue, False, None), w1)))"

text \<open>
  \<^verbatim>\<open>findIssueToReuse\<close> (lines 450-468). The condition of line 461 is evaluated left to
  right: the reopen duration is dereferenced, and the clock read, only for a ticket
  whose resolution time is not the zero Time.
\<close>

definition findIssueToReuse ::
  "golib \<Rightarrow> 's Receiver \<Rightarrow> string \<Rightarrow> string \<Rightarrow> 's world
    \<Rightarrow> (Issue option \<times> bool \<times> error option) outcome \<times> 's world" where
  "findIssueToReuse L r project issueGroupLabel w =
    (case search L r project issueGroupLabel w of
      (Panic p, w1) \<Rightarrow> (Panic p, w1)
    | (Return (issue, retry, Some err), w1) \<Rightarrow> (Return (None, retry, Some err), w1)
    | (Return (None, retry, None), w1) \<Rightarrow> (Return (None, False, None), w1)
    | (Return (Some issue, retry, None), w1) \<Rightarrow>
        (case Fields_i issue of
          None \<Rightarrow> (Panic nilDereference, w1)
        | Some f \<Rightarrow>
            (let resolutionTime = Resolutiondate_f f
             in if resolutionTime \<noteq> 0 then
                  (case ReopenDuration (conf r) of
                    None \<Rightarrow> (Panic nilDereference, w1)
                  | Some reopenDuration \<Rightarrow>
                      if resolutionTime + reopenDuration < timeNow r (jira w1) \<and> reopenDuration \<noteq> 0
                      then (Return (None, False, None), w1)
                      else (Return (Some issue, False, None), w1))
                else (Return (Some issue, False, None), w1))))"

text \<open>
  \<^verbatim>\<open>updateSummary\<close> and \<^verbatim>\<open>updateDescription\<close> (lines 470-502). The debug line after
  a successful update reads \<^verbatim>\<open>issue.Key\<close> of the issue the client returned.
\<close>

definition updateSummary ::
  "golib \<Rightarrow> 's Receiver \<Rightarrow> string \<Rightarrow> string \<Rightarrow> 's world \<Rightarrow> (bool \<times> error option) outcome \<times> 's world" where
  "updateSummary L r issueKey summary w =
    (let issueUpdate = \<lparr>Key = issueKey, ID = '''',
                         Fields_i = Some (zeroIssueFields\<lparr>Summary_f := summary\<rparr>)\<rparr>
     in case client_UpdateWithOptions (client r) issueUpdate w of
         ((issue, resp, Some err), w1) \<Rightarrow>
           (handleJiraErrResponse L ''Issue.UpdateWithOptions'' resp (Some err), w1)
       | ((None, resp, None), w1) \<Rightarrow> (Panic nilDereference, w1)
       | ((Some issue, resp, None), w1) \<Rightarrow> (Return (False, None), w1))"

definition updateDescription ::
  "golib \<Rightarrow> 's Receiver \<Rightarrow> string \<Rightarrow> string \<Rightarrow> 's world \<Rightarrow> (bool \<times> error option) outcome \<times> 's world" where
  "updateDescription L r issueKey description w =
    (let issueUpdate = \<lparr>Key = issueKey, ID = '''',
                         Fields_i = Some (zeroIssueFields\<lparr>Description_f := description\<rparr>)\<rparr>
     in case client_UpdateWithOptions (client r) issueUpdate w of
         ((issue, resp, Some err), w1) \<Rightarrow>
           (handleJiraErrResponse L ''Issue.UpdateWithOptions'' resp (Some err), w1)
       | ((None, resp, None), w1) \<Rightarrow> (Panic nilDereference, w1)
       | ((Some issue, resp, None), w1) \<Rightarrow> (Return (False, None), w1))"

text \<open>
  \<^verbatim>\<open>doTransition\<close> (lines 540-560). The loop returns at the first transition whose
  name is the requested one. The error of line 558 is built from
  \<^verbatim>\<open>r.conf.ReopenState\<close>.
\<close>

definition doTransition ::
  "golib \<Rightarrow> 's Receiver \<Rightarrow> string \<Rightarrow> string \<Rightarrow> 's world \<Rightarrow> (bool \<times> error option) outcome \<times> 's world" where
  "doTransition L r issueKey transitionState w =
    (case client_GetTransitions (client r) issueKey w of
      ((transitions, resp, Some err), w1) \<Rightarrow>
        (handleJiraErrResponse L ''Issue.GetTransitions'' resp (Some err), w1)
    | ((transitions, resp, None), w1) \<Rightarrow>
        (case find (\<lambda>t. Name_t t = transitionState) transitions of
          Some t \<Rightarrow>
            (case client_DoTransition (client r) issueKey (ID_t t) w1 of
              ((resp, Some err), w2) \<Rightarrow>
                (handleJiraErrResponse L ''Issue.DoTransition'' resp (Some err), w2)
            | ((resp, None), w2) \<Rightarrow> (Return (False, None), w2))
        | None \<Rightarrow>
            (Return (False, Some (''JIRA state '' @ Quote L (ReopenState (conf r))
                                   @ '' does not exist or no transition possible for '' @ issueKey)),
             w1)))"

text \<open>\<^verbatim>\<open>reopen\<close> (lines 504-506) and \<^verbatim>\<open>resolveIssue\<close> (lines 536-538).\<close>

definition reopen ::
  "golib \<Rightarrow> 's Receiver \<Rightarrow> string \<Rightarrow> 's world \<Rightarrow> (bool \<times> error option) outcome \<times> 's world" where
  "reopen L r issueKey w = doTransition L r issueKey (ReopenState (conf r)) w"

definition resolveIssue ::
  "golib \<Rightarrow> 's Receiver \<Rightarrow> string \<Rightarrow> 's world \<Rightarrow> (bool \<times> error option) outcome \<times> 's world" where
  "resolveIssue L r issueKey w =
    (case AutoResolve (conf r) of
      None \<Rightarrow> (Panic nilDereference, w)
    | Some state \<Rightarrow> doTransition L r issueKey state w)"

text \<open>\<^verbatim>\<open>create\<close> (lines 508-518).\<close>

definition create ::
  "golib \<Rightarrow> 's Receiver \<Rightarrow> Issue \<Rightarrow> 's world \<Rightarrow> (bool \<times> error option) outcome \<times> 's world" where
  "create L r issue w =
    (case client_Create (client r) issue w of
      ((newIssue, resp, Some err), w1) \<Rightarrow> (handleJiraErrResponse L ''Issue.Create'' resp (Some err), w1)
    | ((None, resp, None), w1) \<Rightarrow> (Panic nilDereference, w1)
    | ((Some newIssue, resp, None), w1) \<Rightarrow> (Return (False, None), w1))"

section \<open>Reconciliation (lines 160-375)\<close>

text \<open>
  \<^verbatim>\<open>deepCopyWithTemplate\<close> (lines 329-375); \<open>ex\<close> is \<^verbatim>\<open>tmpl.Execute\<close> on the data at
  hand. The second and third function are its loops over a slice and over the keys
  of a map; the converted map is indexed by the rendered keys.
\<close>

fun deepCopyWithTemplate :: "(string \<Rightarrow> error + string) \<Rightarrow> jvalue \<Rightarrow> error + jvalue"
  and deepCopySlice :: "(string \<Rightarrow> error + string) \<Rightarrow> jvalue list \<Rightarrow> error + jvalue list"
  and deepCopyMap ::
    "(string \<Rightarrow> error + string) \<Rightarrow> (jvalue \<times> jvalue) list \<Rightarrow> (string \<times> jvalue) list
      \<Rightarrow> error + (string \<times> jvalue) list" where
  "deepCopyWithTemplate ex VNil = Inr VNil"
| "deepCopyWithTemplate ex (VString s) =
    (case ex s of Inl err \<Rightarrow> Inl err | Inr s' \<Rightarrow> Inr (VString s'))"
| "deepCopyWithTemplate ex (VSeq vs) =
    (case deepCopySlice ex vs of Inl err \<Rightarrow> Inl err | Inr converted \<Rightarrow> Inr (VSeq converted))"
| "deepCopyWithTemplate ex (VMap kvs) =
    (case deepCopyMap ex kvs [] of
      Inl err \<Rightarrow> Inl err
    | Inr converted \<Rightarrow> Inr (VMap (map (\<lambda>(k, v). (VString k, v)) converted)))"
| "deepCopyWithTemplate ex (VScalar s) = Inr (VScalar s)"
| "deepCopySlice ex [] = Inr []"
| "deepCopySlice ex (v # vs) =
    (case deepCopyWithTemplate ex v of
      Inl err \<Rightarrow> Inl err
    | Inr v' \<Rightarrow> (case deepCopySlice ex vs of Inl err \<Rightarrow> Inl err | Inr vs' \<Rightarrow> Inr (v' # vs')))"
| "deepCopyMap ex [] converted = Inr converted"
| "deepCopyMap ex ((VString k, v) # kvs) converted =
    (case ex k of
      Inl err \<Rightarrow> Inl err
    | Inr strKey \<Rightarrow>
        (case deepCopyWithTemplate ex v of
          Inl err \<Rightarrow> Inl err
        | Inr v' \<Rightarrow> deepCopyMap ex kvs (AList.update strKey v' converted)))"
| "deepCopyMap ex ((_, v) # kvs) converted = deepCopyMap ex kvs converted"

text \<open>Lines 300-307: the components, rendered one by one.\<close>

fun renderComponents :: "(string \<Rightarrow> error + string) \<Rightarrow> string list \<Rightarrow> error + string list" where
  "renderComponents ex [] = Inr []"
| "renderComponents ex (component # rest) =
    (case ex component of
      Inl err \<Rightarrow> Inl (Wrap err ''render issue component'')
    | Inr issueComp \<Rightarrow>
        (case renderComponents ex rest of Inl err \<Rightarrow> Inl err | Inr cs \<Rightarrow> Inr (issueComp # cs)))"

text \<open>Lines 316-321: the custom fields, copied one by one into \<^verbatim>\<open>Unknowns\<close>.\<close>

fun copyFields ::
  "(string \<Rightarrow> error + string) \<Rightarrow> (string \<times> jvalue) list \<Rightarrow> (string \<times> jvalue) list
    \<Rightarrow> error + (string \<times> jvalue) list" where
  "copyFields ex [] unknowns = Inr unknowns"
| "copyFields ex ((key, v) # rest) unknowns =
    (case deepCopyWithTemplate ex v of
      Inl err \<Rightarrow> Inl err
    | Inr v' \<Rightarrow> copyFields ex rest (AList.update key v' unknowns))"

text \<open>
  Lines 221-265 of \<^verbatim>\<open>notify\<close>: a ticket was found. \<open>w\<close> is the world after the search.
\<close>

definition notifyFound ::
  "golib \<Rightarrow> 's Receiver \<Rightarrow> Data \<Rightarrow> Issue \<Rightarrow> string \<Rightarrow> string \<Rightarrow> 's world
    \<Rightarrow> (bool \<times> error option) outcome \<times> 's world" where
  "notifyFound L r data issue issueSummary issueDesc w =
    (case Fields_i issue of
      None \<Rightarrow> (Panic nilDereference, w)
    | Some f \<Rightarrow>
    (case (if Summary_f f \<noteq> issueSummary then updateSummary L r (Key issue) issueSummary w
           else (Return (False, None), w)) of
      (Panic p, w1) \<Rightarrow> (Panic p, w1)
    | (Return (retry, Some err), w1) \<Rightarrow> (Return (retry, Some err), w1)
    | (Return (retry, None), w1) \<Rightarrow>
    (case (if Description_f f \<noteq> issueDesc then updateDescription L r (Key issue) issueDesc w1
           else (Return (False, None), w1)) of
      (Panic p, w2) \<Rightarrow> (Panic p, w2)
    | (Return (retry, Some err), w2) \<Rightarrow> (Return (retry, Some err), w2)
    | (Return (retry, None), w2) \<Rightarrow>
        if length (Firing (Alerts data)) = 0 then
          (case AutoResolve (conf r) of
            Some state \<Rightarrow>
              (case resolveIssue L r (Key issue) w2 of
                (Panic p, w3) \<Rightarrow> (Panic p, w3)
              | (Return (retry, Some err), w3) \<Rightarrow> (Return (retry, Some err), w3)
              | (Return (retry, None), w3) \<Rightarrow> (Return (False, None), w3))
          | None \<Rightarrow> (Return (False, None), w2))
        else
          (case Status_f f of
            None \<Rightarrow> (Panic nilDereference, w2)
          | Some statusCategoryKey \<Rightarrow>
              if statusCategoryKey \<noteq> ''done'' then (Return (False, None), w2)
              else if WontFixResolution (conf r) \<noteq> ''''
                      \<and> (case Resolution_f f of
                            None \<Rightarrow> False
                          | Some name \<Rightarrow> name = WontFixResolution (conf r))
                   then (Return (False, None), w2)
                   else reopen L r (Key issue) w2))))"

text \<open>
  Lines 272-323 of \<^verbatim>\<open>notify\<close>: no ticket was found and an alert is firing.
\<close>

definition notifyCreate ::
  "golib \<Rightarrow> 's Receiver \<Rightarrow> heap \<Rightarrow> Data \<Rightarrow> string \<Rightarrow> string list \<Rightarrow> string \<Rightarrow> string \<Rightarrow> 's world
    \<Rightarrow> (bool \<times> error option) outcome \<times> 's world" where
  "notifyCreate L r h data project labels issueSummary issueDesc w =
    (case Execute (tmpl r) (IssueType (conf r)) h data of
      Inl err \<Rightarrow> (Return (False, Some (Wrap err ''render issue type'')), w)
    | Inr issueType \<Rightarrow>
    (let fields = zeroIssueFields\<lparr>Project_f := project, Type_f := issueType,
                    Description_f := issueDesc, Summary_f := issueSummary, Labels_f := labels,
                    Unknowns_f := []\<rparr>
     in case (if Priority (conf r) \<noteq> '''' then
                (case Execute (tmpl r) (Priority (conf r)) h data of
                  Inl err \<Rightarrow> Inl (Wrap err ''render issue priority'')
                | Inr issuePrio \<Rightarrow> Inr (fields\<lparr>Priority_f := Some issuePrio\<rparr>))
              else Inr fields) of
      Inl err \<Rightarrow> (Return (False, Some err), w)
    | Inr fields \<Rightarrow>
    (case (if length (Components (conf r)) > 0 then
             (case renderComponents (\<lambda>t. Execute (tmpl r) t h data) (Components (conf r)) of
               Inl err \<Rightarrow> Inl err
             | Inr cs \<Rightarrow> Inr (fields\<lparr>Components_f := cs\<rparr>))
           else Inr fields) of
      Inl err \<Rightarrow> (Return (False, Some err), w)
    | Inr fields \<Rightarrow>
    (let fields =
           (if AddGroupLabels (conf r) then
              fields\<lparr>Labels_f := Labels_f fields
                       @ map (\<lambda>(k, v). k @ ''='' @ Quote L v) (cells h (GroupLabels data))\<rparr>
            else fields)
     in case copyFields (\<lambda>t. Execute (tmpl r) t h data) (Fields (conf r)) (Unknowns_f fields) of
      Inl err \<Rightarrow> (Return (False, Some err), w)
    | Inr unknowns \<Rightarrow>
        create L r \<lparr>Key = '''', ID = '''', Fields_i = Some (fields\<lparr>Unknowns_f := unknowns\<rparr>)\<rparr> w))))"

text \<open>
  \<^verbatim>\<open>notify\<close> (lines 184-324). It reads the maps of the notification and writes none,
  so the store is an argument only.
\<close>

definition notify ::
  "golib \<Rightarrow> 's Receiver \<Rightarrow> heap \<Rightarrow> Data \<Rightarrow> bool \<Rightarrow> 's world
    \<Rightarrow> (bool \<times> error option) outcome \<times> 's world" where
  "notify L r h data hashJiraLabel w =
    (case Execute (tmpl r) (Project (conf r)) h data of
      Inl err \<Rightarrow> (Return (False, Some (Wrap err ''generate project from template'')), w)
    | Inr project \<Rightarrow>
    (let labels =
           (if AddCommonLabels (conf r) then
              map (\<lambda>(n, v). n @ ''='' @ Quote L v) (SortedPairs (cells h (CommonLabels data)))
            else [])
     in case toIssueIdentifierLabel L r h data hashJiraLabel of
      Inl err \<Rightarrow> (Return (False, Some (Wrap err ''build IssueIdentifierLabel'')), w)
    | Inr idLabel \<Rightarrow>
    (let labels = labels @ [idLabel]
     in case findIssueToReuse L r project idLabel w of
      (Panic p, w1) \<Rightarrow> (Panic p, w1)
    | (Return (issue, retry, Some err), w1) \<Rightarrow> (Return (retry, Some err), w1)
    | (Return (issue, retry, None), w1) \<Rightarrow>
    (case Execute (tmpl r) (Summary (conf r)) h data of
      Inl err \<Rightarrow> (Return (False, Some (Wrap err ''generate summary from template'')), w1)
    | Inr issueSummary \<Rightarrow>
    (case Execute (tmpl r) (Description (conf r)) h data of
      Inl err \<Rightarrow> (Return (False, Some (Wrap err ''render issue description'')), w1)
    | Inr issueDesc \<Rightarrow>
    (case issue of
      Some issue \<Rightarrow> notifyFound L r data issue issueSummary issueDesc w1
    | None \<Rightarrow>
        if length (Firing (Alerts data)) = 0 then (Return (False, None), w1)
        else notifyCreate L r h data project labels issueSummary issueDesc w1))))))"

text \<open>
  \<^verbatim>\<open>Notify\<close> (lines 160-181). The switch has no default: for a mode that is none of
  its cases the slice stays nil. The loop stops at the first error.
\<close>

fun notifyEach ::
  "golib \<Rightarrow> 's Receiver \<Rightarrow> heap \<Rightarrow> Data list \<Rightarrow> bool \<Rightarrow> 's world
    \<Rightarrow> (bool \<times> error option) outcome \<times> 's world" where
  "notifyEach L r h [] hashJiraLabel w = (Return (False, None), w)"
| "notifyEach L r h (d # ds) hashJiraLabel w =
    (case notify L r h d hashJiraLabel w of
      (Panic p, w1) \<Rightarrow> (Panic p, w1)
    | (Return (retry, Some err), w1) \<Rightarrow> (Return (retry, Some err), w1)
    | (Return (retry, None), w1) \<Rightarrow> notifyEach L r h ds hashJiraLabel w1)"

definition Notify ::
  "golib \<Rightarrow> 's Receiver \<Rightarrow> heap \<Rightarrow> Data \<Rightarrow> bool \<Rightarrow> 's world
    \<Rightarrow> (bool \<times> error option) outcome \<times> heap \<times> 's world" where
  "Notify L r h data hashJiraLabel w =
    (case (case GroupIssueBy (conf r) of
             AlertGroup \<Rightarrow> ([data], h)
           | Unset \<Rightarrow> ([data], h)
           | AlertRule \<Rightarrow> toAlertRule data h
           | ByAlert \<Rightarrow> (toAlert data, h)
           | Other s \<Rightarrow> ([], h)) of
      (slice, h1) \<Rightarrow>
        (case notifyEach L r h1 slice hashJiraLabel w of (res, w1) \<Rightarrow> (res, h1, w1)))"

section \<open>A fake ticketing system and sample inputs\<close>

text \<open>
  An in-memory stand-in for the ticketing system: the search answers with a fixed list
  of tickets, the listing of transitions with a fixed list, and every other call
  succeeds. It keeps no state.
\<close>

definition fakeJira :: "Issue list \<Rightarrow> Transition list \<Rightarrow> unit jiraIssueService" where
  "fakeJira issues transitions =
    \<lparr>Search = (\<lambda>jql options s. ((issues, None, None), s)),
     GetTransitions = (\<lambda>ident s. ((transitions, None, None), s)),
     Create = (\<lambda>issue s. ((Some issue, None, None), s)),
     UpdateWithOptions = (\<lambda>issue s. ((Some issue, None, None), s)),
     DoTransition = (\<lambda>ticketID transitionID s. ((None, None), s))\<rparr>"

text \<open>
  A renderer for the samples: a text is rendered as itself, except the text of an
  action that is never closed, which fails.
\<close>

definition plainTemplate :: Template where
  "plainTemplate =
    \<lparr>Execute = (\<lambda>text h d. if text = ''{{'' then Inl ''unclosed action'' else Inr text)\<rparr>"

definition sampleConf :: ReceiverConfig where
  "sampleConf =
    \<lparr>Project = ''OPS'', IssueType = ''Bug'', Summary = ''alerts'', Description = ''details'',
     Priority = '''', Components = [], Fields = [], IssueIdentifierLabel = '''',
     AddCommonLabels = False, AddGroupLabels = False, AutoResolve = None,
     WontFixResolution = ''WontFix'', ReopenState = ''To Do'', ReopenDuration = Some 50,
     GroupIssueBy = Unset\<rparr>"

definition sampleReceiver ::
  "Issue list \<Rightarrow> Transition list \<Rightarrow> ReceiverConfig \<Rightarrow> Time \<Rightarrow> unit Receiver" where
  "sampleReceiver issues transitions c now =
    \<lparr>client = fakeJira issues transitions, conf = c, tmpl = plainTemplate, timeNow = (\<lambda>s. now)\<rparr>"

definition emptyWorld :: "unit world" where
  "emptyWorld = \<lparr>jira = (), calls = []\<rparr>"

text \<open>A ticket as the search returns it, with its summary and description up to date.\<close>

definition sampleIssue :: "string \<Rightarrow> string option \<Rightarrow> Time \<Rightarrow> Issue" where
  "sampleIssue statusCategoryKey resolution resolutiondate =
    \<lparr>Key = ''OPS-1'', ID = ''10001'',
     Fields_i = Some (zeroIssueFields\<lparr>Summary_f := ''alerts'', Description_f := ''details'',
                        Status_f := Some statusCategoryKey, Resolution_f := resolution,
                        Resolutiondate_f := resolutiondate\<rparr>)\<rparr>"

definition sampleTransitions :: "Transition list" where
  "sampleTransitions =
    [\<lparr>ID_t = ''11'', Name_t = ''To Do''\<rparr>, \<lparr>ID_t = ''31'', Name_t = ''Done''\<rparr>]"

text \<open>
  The batch of section 8 of the specification, and one alert more that has no
  \<^verbatim>\<open>alertname\<close>: cell 0 holds the group labels, cells 1 and 2 the common labels and
  annotations, cells 3 to 10 the labels and annotations of the four alerts.
\<close>

definition sampleHeap :: heap where
  "sampleHeap =
    \<lparr>cells = (\<lambda>r. [])
       (0 := [(''team'', ''ops'')],
        3 := [(''alertname'', ''A''), (''sev'', ''high'')],
        4 := [(''runbook'', ''r1'')],
        5 := [(''alertname'', ''A''), (''sev'', ''low'')],
        6 := [(''runbook'', ''r1'')],
        7 := [(''alertname'', ''B'')],
        9 := [(''job'', ''node'')]),
     next_ref = 11\<rparr>"

definition sampleAlerts :: "Alert list" where
  "sampleAlerts =
    [\<lparr>Status = ''firing'', Labels = 3, Annotations = 4\<rparr>,
     \<lparr>Status = ''resolved'', Labels = 5, Annotations = 6\<rparr>,
     \<lparr>Status = ''firing'', Labels = 7, Annotations = 8\<rparr>,
     \<lparr>Status = ''firing'', Labels = 9, Annotations = 10\<rparr>]"

definition sampleData :: "Alert list \<Rightarrow> Data" where
  "sampleData as =
    \<lparr>Receiver_d = ''jira'', Status_d = ''firing'', Alerts = as, GroupLabels = 0,
     CommonLabels = 1, CommonAnnotations = 2, ExternalURL = ''http://alertmanager'',
     Version = ''4'', GroupKey = ''key''\<rparr>"

text \<open>
  Two alerts of one rule: the first has a label whose value is the empty string, the
  second has no such label.
\<close>

definition blankHeap :: heap where
  "blankHeap =
    \<lparr>cells = (\<lambda>r. [])
       (3 := [(''alertname'', ''A''), (''zone'', '''')],
        5 := [(''alertname'', ''A'')]),
     next_ref = 7\<rparr>"

definition blankAlerts :: "Alert list" where
  "blankAlerts =
    [\<lparr>Status = ''firing'', Labels = 3, Annotations = 4\<rparr>,
     \<lparr>Status = ''firing'', Labels = 5, Annotations = 6\<rparr>]"

section \<open>Predicates used to state the properties\<close>

text \<open>The maps an alert refers to, and those a notification refers to.\<close>

definition refs_of :: "Alert \<Rightarrow> ref list" where
  "refs_of a = [Labels a, Annotations a]"

definition footprint :: "Data \<Rightarrow> ref list" where
  "footprint data = CommonLabels data # CommonAnnotations data # concat (map refs_of (Alerts data))"

text \<open>
  A batch as the decoder of the webhook builds it: every alert has a label map and an
  annotation map of its own, allocated in the store, with one pair per key.
\<close>

definition separate :: "heap \<Rightarrow> Alert list \<Rightarrow> bool" where
  "separate h as =
    (distinct (concat (map refs_of as))
     \<and> list_all (\<lambda>a. Labels a < next_ref h \<and> Annotations a < next_ref h
                     \<and> distinct (map fst (cells h (Labels a)))
                     \<and> distinct (map fst (cells h (Annotations a)))) as)"

text \<open>The value of the label \<^verbatim>\<open>alertname\<close> of an alert, if it has one.\<close>

definition ruleOf :: "heap \<Rightarrow> Alert \<Rightarrow> string option" where
  "ruleOf h a = map_of (cells h (Labels a)) ''alertname''"

text \<open>
  The pair \<open>(k, v)\<close> is common to a list of alerts: the first alert maps \<open>k\<close> to \<open>v\<close>,
  and every later one reads \<open>v\<close> at \<open>k\<close>, a missing key being read as the empty string.
\<close>

definition commonLabel :: "heap \<Rightarrow> Alert list \<Rightarrow> string \<Rightarrow> string \<Rightarrow> bool" where
  "commonLabel h as k v =
    (case as of
      [] \<Rightarrow> False
    | a # bs \<Rightarrow> map_of (cells h (Labels a)) k = Some v
                \<and> list_all (\<lambda>b. index (cells h (Labels b)) k = v) bs)"

definition commonAnnotation :: "heap \<Rightarrow> Alert list \<Rightarrow> string \<Rightarrow> string \<Rightarrow> bool" where
  "commonAnnotation h as k v =
    (case as of
      [] \<Rightarrow> False
    | a # bs \<Rightarrow> map_of (cells h (Annotations a)) k = Some v
                \<and> list_all (\<lambda>b. index (cells h (Annotations b)) k = v) bs)"

text \<open>
  An entry of \<^verbatim>\<open>alertsData\<close> before its common maps are filled: it has an alert, the
  maps it refers to are all different, its own two are empty, and the maps of its
  alerts have one pair per key.
\<close>

definition ready :: "heap \<Rightarrow> Data \<Rightarrow> bool" where
  "ready h data =
    (Alerts data \<noteq> [] \<and> distinct (footprint data)
     \<and> cells h (CommonLabels data) = [] \<and> cells h (CommonAnnotations data) = []
     \<and> list_all (\<lambda>a. distinct (map fst (cells h (Labels a)))
                     \<and> distinct (map fst (cells h (Annotations a)))) (Alerts data))"

text \<open>
  What the first loop of \<^verbatim>\<open>toAlertRule\<close> has built from the alerts \<open>xs\<close> it has seen,
  starting from the store \<open>h0\<close>: an entry of \<^verbatim>\<open>alertsData\<close> under the name \<open>n\<close> holds
  the alerts of that name in order and the status they imply, and its two maps are
  fresh, adjacent and empty.
\<close>

definition entry_ok :: "heap \<Rightarrow> Alert list \<Rightarrow> heap \<Rightarrow> string \<Rightarrow> Data \<Rightarrow> bool" where
  "entry_ok h0 xs h1 n data =
    (Alerts data = filter (\<lambda>a. ruleOf h0 a = Some n) xs
     \<and> Status_d data = (if list_ex (\<lambda>a. Status a = AlertFiring) (Alerts data)
                         then AlertFiring else AlertResolved)
     \<and> next_ref h0 \<le> CommonAnnotations data
     \<and> CommonLabels data = Suc (CommonAnnotations data)
     \<and> CommonLabels data < next_ref h1
     \<and> cells h1 (CommonLabels data) = [] \<and> cells h1 (CommonAnnotations data) = [])"

text \<open>
  The invariant of that loop: one entry per name seen, every entry as above, the
  maps of the input untouched, and the fresh maps of two entries two apart.
\<close>

definition grouped :: "heap \<Rightarrow> Alert list \<Rightarrow> heap \<Rightarrow> (string \<times> Data) list \<Rightarrow> bool" where
  "grouped h0 xs h1 ad =
    (distinct (map fst ad)
     \<and> fst ` set ad = {n. \<exists>a\<in>set xs. ruleOf h0 a = Some n}
     \<and> next_ref h0 \<le> next_ref h1
     \<and> (\<forall>r<next_ref h0. cells h1 r = cells h0 r)
     \<and> (\<forall>n data. map_of ad n = Some data \<longrightarrow> entry_ok h0 xs h1 n data)
     \<and> (\<forall>n data n' data'. map_of ad n = Some data \<longrightarrow> map_of ad n' = Some data' \<longrightarrow> n \<noteq> n' \<longrightarrow>
           CommonAnnotations data + 2 \<le> CommonAnnotations data'
           \<or> CommonAnnotations data' + 2 \<le> CommonAnnotations data))"

section \<open>Identity label\<close>

lemma SortedPairs_permutation:
  assumes "distinct (map fst xs)" and "mset ys = mset xs"
  shows "SortedPairs ys = SortedPairs xs"
proof -
  have "inj_on fst (set xs)"
    using assms(1) by (simp add: distinct_map)
  moreover have "set ys = set xs"
    using assms(2) by (metis mset_eq_setD)
  ultimately have "inj_on fst (set ys)"
    by simp
  then show ?thesis
    unfolding SortedPairs_def using assms(2) by (rule sort_key_eq_sort_key[rotated])
qed

lemma toGroupTicketLabel_legacy:
  "toGroupTicketLabel L labels False =
    stripSpaces (butlast (''ALERT{'' @ concat (map (\<lambda>(n, v). n @ ''='' @ Quote L v @ '','') (SortedPairs labels))) @ ''}'')"
  unfolding toGroupTicketLabel_def Let_def butlast_conv_take[symmetric] by simp

text \<open>
  C6. When no identity-label template is configured, the identity label depends only
  on the pairs of the group labels: two maps with the same pairs, visited in any
  two orders, give the same label, character for character, in the legacy mode and
  in the hashed mode alike (whatever the quoting and the hash function are).
\<close>

theorem toGroupTicketLabel_permutation:
  assumes "distinct (map fst xs)" and "mset ys = mset xs"
  shows "toGroupTicketLabel L ys hashJiraLabel = toGroupTicketLabel L xs hashJiraLabel"
  by (simp add: toGroupTicketLabel_def SortedPairs_permutation[OF assms])

theorem toGroupTicketLabel_permutation_witness:
  "distinct (map fst [(''b'', ''1''), (''a'', ''2'')])
   \<and> mset [(''a'', ''2''), (''b'', ''1'')] = mset [(''b'', ''1''), (''a'', ''2'')]
   \<and> (\<forall>L hashJiraLabel.
        toGroupTicketLabel L [(''a'', ''2''), (''b'', ''1'')] hashJiraLabel
        = toGroupTicketLabel L [(''b'', ''1''), (''a'', ''2'')] hashJiraLabel)
   \<and> (\<forall>L. toGroupTicketLabel L [(''b'', ''1''), (''a'', ''2'')] False
        = stripSpaces (''ALERT{a='' @ Quote L ''2'' @ '',b='' @ Quote L ''1'' @ ''}''))"
proof -
  have d: "distinct (map fst [(''b'', ''1''), (''a'', ''2'')])"
    by simp
  have m: "mset [(''a'', ''2''), (''b'', ''1'')] = mset [(''b'', ''1''), (''a'', ''2'')]"
    by simp
  have v: "toGroupTicketLabel L [(''b'', ''1''), (''a'', ''2'')] False
        = stripSpaces (''ALERT{a='' @ Quote L ''2'' @ '',b='' @ Quote L ''1'' @ ''}'')" for L
    by (simp add: toGroupTicketLabel_legacy SortedPairs_def butlast_append)
  show ?thesis
    using d m v toGroupTicketLabel_permutation[OF d m] by blast
qed

text \<open>
  C10. For the empty map of group labels the legacy label is \<^verbatim>\<open>ALERT}\<close>: with no pair
  written, the truncation by one byte removes the opening brace.
\<close>

theorem toGroupTicketLabel_empty_legacy:
  "toGroupTicketLabel L [] False = ''ALERT}''"
  by (simp add: toGroupTicketLabel_def SortedPairs_def stripSpaces_def)

section \<open>Errors of the ticketing system\<close>

lemma sdiv_100: "(c::int) sdiv 100 = 2 \<longleftrightarrow> 200 \<le> c \<and> c < 300"
  by (auto simp: signed_divide_int_def sgn_if)

text \<open>
  For a response that carries its request, and when there is no response, the retry
  flag is as section 6 says: true exactly for a status 500 or 503.
\<close>

lemma handleJiraErrResponse_retry:
  assumes "resp = None \<or> (\<exists>rsp url. resp = Some rsp \<and> Request rsp = Some url)"
  shows "\<exists>e. handleJiraErrResponse L api resp err =
     Return ((case resp of
                None \<Rightarrow> False
              | Some rsp \<Rightarrow> StatusCode rsp = 500 \<or> StatusCode rsp = 503), e)"
  using assms by (auto simp: handleJiraErrResponse_def sdiv_100 split: option.splits)

text \<open>
  C7. A response with status 500 whose \<^verbatim>\<open>Request\<close> is nil: the claim expects the retry
  flag true; \<^verbatim>\<open>handleJiraErrResponse\<close> panics at line 531, where it reads
  \<^verbatim>\<open>resp.Request.URL\<close> without the nil check that line 521 makes.
\<close>

theorem handleJiraErrResponse_nil_Request:
  "handleJiraErrResponse L ''Issue.Create''
     (Some \<lparr>StatusCode = 500, Status_r = ''500 Internal Server Error'', Request = None, Body = ''''\<rparr>)
     (Some ''boom'') = Panic nilDereference"
  by (simp add: handleJiraErrResponse_def signed_divide_int_def)

section \<open>Transitions\<close>

text \<open>
  When no listed transition has the requested name, \<^verbatim>\<open>doTransition\<close> lists the
  transitions and calls nothing else, and it returns no retry and an error.
\<close>

lemma doTransition_no_match:
  assumes "client_GetTransitions (client r) issueKey w = ((transitions, resp, None), w1)"
    and "find (\<lambda>t. Name_t t = transitionState) transitions = None"
  shows "doTransition L r issueKey transitionState w =
    (Return (False, Some (''JIRA state '' @ Quote L (ReopenState (conf r))
                           @ '' does not exist or no transition possible for '' @ issueKey)), w1)"
    and "calls w1 = calls w @ [GetTransitionsCall issueKey]"
  using assms by (auto simp: doTransition_def client_GetTransitions_def split: prod.splits)

text \<open>
  C3. The auto-resolve state \<^verbatim>\<open>Done\<close> is requested on a ticket that lists no
  transition, in a configuration whose reopen state is \<^verbatim>\<open>To Do\<close>: no transition is
  invoked and no retry is asked for, as the claim says, but the error names the
  reopen state \<^verbatim>\<open>To Do\<close>, not the requested state \<^verbatim>\<open>Done\<close>.
\<close>

theorem doTransition_names_reopen_state:
  "doTransition L (sampleReceiver [] [] (sampleConf\<lparr>AutoResolve := Some ''Done''\<rparr>) 0)
     ''OPS-1'' ''Done'' emptyWorld
   = (Return (False, Some (''JIRA state '' @ Quote L ''To Do''
                            @ '' does not exist or no transition possible for OPS-1'')),
      \<lparr>jira = (), calls = [GetTransitionsCall ''OPS-1'']\<rparr>)"
  by (simp add: doTransition_def sampleReceiver_def client_GetTransitions_def fakeJira_def
      emptyWorld_def sampleConf_def)

section \<open>Ticket lookup\<close>

lemma search_calls:
  "\<exists>q opts. calls (snd (search L r project label w)) = calls w @ [SearchCall q opts]"
  by (auto simp: search_def client_Search_def Let_def
      split: prod.splits option.splits outcome.splits list.splits)

lemma findIssueToReuse_calls:
  "calls (snd (findIssueToReuse L r project label w)) = calls (snd (search L r project label w))"
  by (auto simp: findIssueToReuse_def Let_def split: prod.splits option.splits outcome.splits)

text \<open>
  C5. For a ticket returned by the search, with the reopen duration \<open>D\<close> configured,
  \<^verbatim>\<open>findIssueToReuse\<close> returns no ticket exactly when the resolution time is set, \<open>D\<close>
  is not zero and the resolution time plus \<open>D\<close> is strictly before now; otherwise it
  returns the ticket. So with \<open>D = 0\<close> the ticket is always returned, and a ticket
  resolved at \<open>T\<close> is returned as long as now is at most \<open>T + D\<close>.
\<close>

theorem findIssueToReuse_staleness:
  assumes "search L r project label w = (Return (Some issue, retry, None), w1)"
    and "Fields_i issue = Some f"
    and "ReopenDuration (conf r) = Some D"
  shows "findIssueToReuse L r project label w =
    (Return (if Resolutiondate_f f \<noteq> 0 \<and> D \<noteq> 0 \<and> Resolutiondate_f f + D < timeNow r (jira w1)
             then None else Some issue, False, None), w1)"
  using assms by (auto simp: findIssueToReuse_def Let_def)

theorem findIssueToReuse_staleness_witness:
  "(\<forall>L. fst (findIssueToReuse L
             (sampleReceiver [sampleIssue ''done'' (Some ''Fixed'') 100] [] sampleConf 151)
             ''OPS'' ''id'' emptyWorld)
         = Return (None, False, None))
   \<and> (\<forall>L. fst (findIssueToReuse L
             (sampleReceiver [sampleIssue ''done'' (Some ''Fixed'') 100] [] sampleConf 150)
             ''OPS'' ''id'' emptyWorld)
         = Return (Some (sampleIssue ''done'' (Some ''Fixed'') 100), False, None))
   \<and> (\<forall>L. fst (findIssueToReuse L
             (sampleReceiver [sampleIssue ''done'' (Some ''Fixed'') 100] []
                (sampleConf\<lparr>ReopenDuration := Some 0\<rparr>) 1000000)
             ''OPS'' ''id'' emptyWorld)
         = Return (Some (sampleIssue ''done'' (Some ''Fixed'') 100), False, None))"
proof -
  have s: "search L (sampleReceiver [sampleIssue ''done'' (Some ''Fixed'') 100] [] c now)
             ''OPS'' ''id'' emptyWorld
           = (Return (Some (sampleIssue ''done'' (Some ''Fixed'') 100), False, None),
              snd (search L (sampleReceiver [sampleIssue ''done'' (Some ''Fixed'') 100] [] c now)
                     ''OPS'' ''id'' emptyWorld))" for L c now
    by (simp add: search_def client_Search_def sampleReceiver_def fakeJira_def Let_def)
  have f: "Fields_i (sampleIssue ''done'' (Some ''Fixed'') 100)
           = Some (zeroIssueFields\<lparr>Summary_f := ''alerts'', Description_f := ''details'',
                     Status_f := Some ''done'', Resolution_f := Some ''Fixed'',
                     Resolutiondate_f := 100\<rparr>)"
    by (simp add: sampleIssue_def)
  have d: "ReopenDuration (conf (sampleReceiver i t sampleConf now)) = Some 50" for i t now
    by (simp add: sampleReceiver_def sampleConf_def)
  have z: "ReopenDuration (conf (sampleReceiver i t (sampleConf\<lparr>ReopenDuration := Some 0\<rparr>) now)) = Some 0"
    for i t now
    by (simp add: sampleReceiver_def)
  show ?thesis
    using findIssueToReuse_staleness[OF s f d] findIssueToReuse_staleness[OF s f z]
    by (simp add: sampleReceiver_def)
qed

section \<open>Reconciliation\<close>

lemma updateSummary_calls:
  "filter is_transition_call (calls (snd (updateSummary L r k s w))) = filter is_transition_call (calls w)"
  by (auto simp: updateSummary_def client_UpdateWithOptions_def Let_def split: prod.splits option.splits)

lemma updateDescription_calls:
  "filter is_transition_call (calls (snd (updateDescription L r k s w))) = filter is_transition_call (calls w)"
  by (auto simp: updateDescription_def client_UpdateWithOptions_def Let_def split: prod.splits option.splits)

text \<open>
  Lines 221-265 for a ticket that is done and resolved as won't fix: whatever the two
  updates answer, no transition is listed or invoked, unless no alert is firing and
  an auto-resolve state is configured.
\<close>

lemma notifyFound_wontfix:
  assumes "Fields_i issue = Some f"
    and "Status_f f = Some ''done''"
    and "Resolution_f f = Some (WontFixResolution (conf r))"
    and "WontFixResolution (conf r) \<noteq> ''''"
    and "Firing (Alerts data) \<noteq> [] \<or> AutoResolve (conf r) = None"
  shows "filter is_transition_call (calls (snd (notifyFound L r data issue issueSummary issueDesc w)))
          = filter is_transition_call (calls w)"
proof -
  obtain x w1 where A: "(if Summary_f f \<noteq> issueSummary then updateSummary L r (Key issue) issueSummary w
           else (Return (False, None), w)) = (x, w1)"
    by (metis surj_pair)
  have c1: "filter is_transition_call (calls w1) = filter is_transition_call (calls w)"
    using A updateSummary_calls[of L r "Key issue" issueSummary w] by (auto split: if_splits)
  obtain x2 w2 where B: "(if Description_f f \<noteq> issueDesc then updateDescription L r (Key issue) issueDesc w1
           else (Return (False, None), w1)) = (x2, w2)"
    by (metis surj_pair)
  have c2: "filter is_transition_call (calls w2) = filter is_transition_call (calls w1)"
    using B updateDescription_calls[of L r "Key issue" issueDesc w1] by (auto split: if_splits)
  have last: "(if length (Firing (Alerts data)) = 0 then
          (case AutoResolve (conf r) of
            Some state \<Rightarrow>
              (case resolveIssue L r (Key issue) w2 of
                (Panic p, w3) \<Rightarrow> (Panic p, w3)
              | (Return (retry, Some err), w3) \<Rightarrow> (Return (retry, Some err), w3)
              | (Return (retry, None), w3) \<Rightarrow> (Return (False, None), w3))
          | None \<Rightarrow> (Return (False, None), w2))
        else
          (case Status_f f of
            None \<Rightarrow> (Panic nilDereference, w2)
          | Some statusCategoryKey \<Rightarrow>
              if statusCategoryKey \<noteq> ''done'' then (Return (False, None), w2)
              else if WontFixResolution (conf r) \<noteq> ''''
                      \<and> (case Resolution_f f of
                            None \<Rightarrow> False
                          | Some name \<Rightarrow> name = WontFixResolution (conf r))
                   then (Return (False, None), w2)
                   else reopen L r (Key issue) w2)) = (Return (False, None), w2)"
    using assms(2-5) by auto
  show ?thesis
  proof (cases x)
    case (Panic p)
    then show ?thesis using c1 by (simp add: notifyFound_def assms(1) A)
  next
    case (Return y)
    obtain retry e where y: "y = (retry, e)" by (metis surj_pair)
    show ?thesis
    proof (cases e)
      case (Some err)
      then show ?thesis using c1 by (simp add: notifyFound_def assms(1) A Return y)
    next
      case None
      note e = this
      show ?thesis
      proof (cases x2)
        case (Panic p)
        then show ?thesis using c1 c2 by (simp add: notifyFound_def assms(1) A Return y e B)
      next
        case R2: (Return y2)
        obtain retry2 e2 where y2: "y2 = (retry2, e2)" by (metis surj_pair)
        show ?thesis using c1 c2
          by (cases e2) (simp_all only: notifyFound_def assms(1) A Return y e B R2 y2 last
              option.case prod.case outcome.case snd_conv)
      qed
    qed
  qed
qed

text \<open>
  C1, as amended. For a reusable ticket that is done and whose resolution is the
  configured, non-empty won't-fix resolution, processing one notification lists and
  invokes no transition, provided an alert of the notification is firing or no
  auto-resolve state is configured.
\<close>

theorem notify_wontfix_no_transition:
  assumes "Execute (tmpl r) (Project (conf r)) h data = Inr project"
    and "toIssueIdentifierLabel L r h data hashJiraLabel = Inr idLabel"
    and "findIssueToReuse L r project idLabel w = (Return (Some issue, retry, None), w1)"
    and "Fields_i issue = Some f"
    and "Status_f f = Some ''done''"
    and "Resolution_f f = Some (WontFixResolution (conf r))"
    and "WontFixResolution (conf r) \<noteq> ''''"
    and "Firing (Alerts data) \<noteq> [] \<or> AutoResolve (conf r) = None"
  shows "filter is_transition_call (calls (snd (notify L r h data hashJiraLabel w)))
          = filter is_transition_call (calls w)"
proof -
  have w1: "filter is_transition_call (calls w1) = filter is_transition_call (calls w)"
    using search_calls[of L r project idLabel w] findIssueToReuse_calls[of L r project idLabel w] assms(3)
    by auto
  show ?thesis
    unfolding notify_def
    using assms(1-3) w1 notifyFound_wontfix[OF assms(4-8), of L _ _ w1]
    by (auto simp: Let_def split: sum.splits)
qed

theorem notify_wontfix_no_transition_witness:
  "\<forall>L. WontFixResolution (sampleConf\<lparr>AutoResolve := Some ''Done''\<rparr>) \<noteq> ''''
     \<and> Firing (Alerts (sampleData sampleAlerts)) \<noteq> []
     \<and> fst (findIssueToReuse L
            (sampleReceiver [sampleIssue ''done'' (Some ''WontFix'') 100] sampleTransitions
               (sampleConf\<lparr>AutoResolve := Some ''Done''\<rparr>) 120)
            ''OPS'' (toGroupTicketLabel L [(''team'', ''ops'')] False) emptyWorld)
        = Return (Some (sampleIssue ''done'' (Some ''WontFix'') 100), False, None)
     \<and> filter is_transition_call (calls (snd (notify L
            (sampleReceiver [sampleIssue ''done'' (Some ''WontFix'') 100] sampleTransitions
               (sampleConf\<lparr>AutoResolve := Some ''Done''\<rparr>) 120)
            sampleHeap (sampleData sampleAlerts) False emptyWorld)))
        = []"
proof
  fix L
  let ?c = "sampleConf\<lparr>AutoResolve := Some ''Done''\<rparr>"
  let ?r = "sampleReceiver [sampleIssue ''done'' (Some ''WontFix'') 100] sampleTransitions ?c 120"
  let ?d = "sampleData sampleAlerts"
  let ?l = "toGroupTicketLabel L [(''team'', ''ops'')] False"
  have h1: "Execute (tmpl ?r) (Project (conf ?r)) sampleHeap ?d = Inr ''OPS''"
    by (simp add: sampleReceiver_def fakeJira_def plainTemplate_def sampleConf_def emptyWorld_def
      sampleIssue_def sampleTransitions_def sampleHeap_def sampleAlerts_def sampleData_def
      zeroIssueFields_def)
  have h2: "toIssueIdentifierLabel L ?r sampleHeap ?d False = Inr ?l"
    by (simp add: toIssueIdentifierLabel_def sampleReceiver_def fakeJira_def plainTemplate_def sampleConf_def emptyWorld_def
      sampleIssue_def sampleTransitions_def sampleHeap_def sampleAlerts_def sampleData_def
      zeroIssueFields_def)
  have h3: "findIssueToReuse L ?r ''OPS'' ?l emptyWorld
      = (Return (Some (sampleIssue ''done'' (Some ''WontFix'') 100), False, None),
         snd (findIssueToReuse L ?r ''OPS'' ?l emptyWorld))"
    by (simp add: findIssueToReuse_def search_def client_Search_def sampleReceiver_def fakeJira_def plainTemplate_def sampleConf_def emptyWorld_def
      sampleIssue_def sampleTransitions_def sampleHeap_def sampleAlerts_def sampleData_def
      zeroIssueFields_def Let_def)
  have h4: "Fields_i (sampleIssue ''done'' (Some ''WontFix'') 100)
      = Some (zeroIssueFields\<lparr>Summary_f := ''alerts'', Description_f := ''details'',
                 Status_f := Some ''done'', Resolution_f := Some ''WontFix'',
                 Resolutiondate_f := 100\<rparr>)"
    by (simp add: sampleIssue_def)
  have h5: "Status_f (zeroIssueFields\<lparr>Summary_f := ''alerts'', Description_f := ''details'',
                 Status_f := Some ''done'', Resolution_f := Some ''WontFix'',
                 Resolutiondate_f := 100\<rparr>) = Some ''done''"
    by simp
  have h6: "Resolution_f (zeroIssueFields\<lparr>Summary_f := ''alerts'', Description_f := ''details'',
                 Status_f := Some ''done'', Resolution_f := Some ''WontFix'',
                 Resolutiondate_f := 100\<rparr>) = Some (WontFixResolution (conf ?r))"
    by (simp add: sampleReceiver_def fakeJira_def plainTemplate_def sampleConf_def emptyWorld_def
      sampleIssue_def sampleTransitions_def sampleHeap_def sampleAlerts_def sampleData_def
      zeroIssueFields_def)
  have h7: "WontFixResolution (conf ?r) \<noteq> ''''"
    by (simp add: sampleReceiver_def fakeJira_def plainTemplate_def sampleConf_def emptyWorld_def
      sampleIssue_def sampleTransitions_def sampleHeap_def sampleAlerts_def sampleData_def
      zeroIssueFields_def)
  have h8: "Firing (Alerts ?d) \<noteq> [] \<or> AutoResolve (conf ?r) = None"
    by (simp add: sampleReceiver_def fakeJira_def plainTemplate_def sampleConf_def emptyWorld_def
      sampleIssue_def sampleTransitions_def sampleHeap_def sampleAlerts_def sampleData_def
      zeroIssueFields_def Firing_def AlertFiring_def)
  have "filter is_transition_call (calls (snd (notify L ?r sampleHeap ?d False emptyWorld)))
      = filter is_transition_call (calls emptyWorld)"
    by (rule notify_wontfix_no_transition[OF h1 h2 h3 h4 h5 h6 h7 h8])
  moreover have "Firing (Alerts ?d) \<noteq> []"
    by (simp add: sampleReceiver_def fakeJira_def plainTemplate_def sampleConf_def emptyWorld_def
      sampleIssue_def sampleTransitions_def sampleHeap_def sampleAlerts_def sampleData_def
      zeroIssueFields_def Firing_def AlertFiring_def)
  moreover have "WontFixResolution ?c \<noteq> ''''"
    by (simp add: sampleReceiver_def fakeJira_def plainTemplate_def sampleConf_def emptyWorld_def
      sampleIssue_def sampleTransitions_def sampleHeap_def sampleAlerts_def sampleData_def
      zeroIssueFields_def)
  moreover have "fst (findIssueToReuse L ?r ''OPS'' ?l emptyWorld)
        = Return (Some (sampleIssue ''done'' (Some ''WontFix'') 100), False, None)"
    by (simp add: findIssueToReuse_def search_def client_Search_def sampleReceiver_def fakeJira_def plainTemplate_def sampleConf_def emptyWorld_def
      sampleIssue_def sampleTransitions_def sampleHeap_def sampleAlerts_def sampleData_def
      zeroIssueFields_def Let_def)
  ultimately show "WontFixResolution ?c \<noteq> ''''
     \<and> Firing (Alerts ?d) \<noteq> []
     \<and> fst (findIssueToReuse L ?r ''OPS'' ?l emptyWorld)
        = Return (Some (sampleIssue ''done'' (Some ''WontFix'') 100), False, None)
     \<and> filter is_transition_call (calls (snd (notify L ?r sampleHeap ?d False emptyWorld))) = []"
    by (simp add: emptyWorld_def)
qed

text \<open>
  C1 as stated fails: the ticket found is done and resolved as won't fix, no alert is
  firing and the auto-resolve state \<^verbatim>\<open>Done\<close> is configured; the transitions are
  listed and the one named \<^verbatim>\<open>Done\<close> is invoked (lines 237-245 come before the check
  of lines 257-261).
\<close>

theorem notify_wontfix_autoresolve_counterexample:
  "\<forall>L. fst (findIssueToReuse L
            (sampleReceiver [sampleIssue ''done'' (Some ''WontFix'') 100] sampleTransitions
               (sampleConf\<lparr>AutoResolve := Some ''Done''\<rparr>) 120)
            ''OPS'' (toGroupTicketLabel L [(''team'', ''ops'')] False) emptyWorld)
        = Return (Some (sampleIssue ''done'' (Some ''WontFix'') 100), False, None)
     \<and> WontFixResolution (sampleConf\<lparr>AutoResolve := Some ''Done''\<rparr>) = ''WontFix''
     \<and> filter is_transition_call (calls (snd (notify L
            (sampleReceiver [sampleIssue ''done'' (Some ''WontFix'') 100] sampleTransitions
               (sampleConf\<lparr>AutoResolve := Some ''Done''\<rparr>) 120)
            sampleHeap (sampleData [\<lparr>Status = ''resolved'', Labels = 5, Annotations = 6\<rparr>])
            False emptyWorld)))
        = [GetTransitionsCall ''OPS-1'', DoTransitionCall ''OPS-1'' ''31'']"
  by (simp add: sampleReceiver_def fakeJira_def plainTemplate_def sampleConf_def emptyWorld_def
      sampleIssue_def sampleTransitions_def sampleHeap_def sampleAlerts_def sampleData_def
      zeroIssueFields_def notify_def notifyFound_def notifyCreate_def toIssueIdentifierLabel_def
      findIssueToReuse_def search_def client_Search_def client_GetTransitions_def
      client_DoTransition_def client_UpdateWithOptions_def client_Create_def updateSummary_def
      updateDescription_def resolveIssue_def reopen_def doTransition_def create_def Firing_def
      AlertFiring_def Let_def)

text \<open>
  C8, as amended. When the lookup finds no reusable ticket and no alert of the
  notification is firing, the only call made to the ticketing system is the search
  (no create, no update, no transition), no retry is asked for, and no error is
  returned provided the summary and the description templates render; when one of
  them fails to render, its error is returned.
\<close>

theorem notify_nothing_to_do:
  assumes "Execute (tmpl r) (Project (conf r)) h data = Inr project"
    and "toIssueIdentifierLabel L r h data hashJiraLabel = Inr idLabel"
    and "findIssueToReuse L r project idLabel w = (Return (None, retry, None), w1)"
    and "Firing (Alerts data) = []"
  shows "\<exists>e q opts. notify L r h data hashJiraLabel w = (Return (False, e), w1)
          \<and> (e = None) = (\<not> isl (Execute (tmpl r) (Summary (conf r)) h data)
                         \<and> \<not> isl (Execute (tmpl r) (Description (conf r)) h data))
          \<and> calls w1 = calls w @ [SearchCall q opts]
          \<and> filter is_mutating_call (calls w1) = filter is_mutating_call (calls w)"
proof -
  obtain q opts where w1: "calls w1 = calls w @ [SearchCall q opts]"
    using search_calls[of L r project idLabel w] findIssueToReuse_calls[of L r project idLabel w] assms(3)
    by auto
  then have m: "filter is_mutating_call (calls w1) = filter is_mutating_call (calls w)"
    by simp
  have "\<exists>e. notify L r h data hashJiraLabel w = (Return (False, e), w1)
          \<and> (e = None) = (\<not> isl (Execute (tmpl r) (Summary (conf r)) h data)
                         \<and> \<not> isl (Execute (tmpl r) (Description (conf r)) h data))"
    unfolding notify_def
    using assms
    by (auto simp: Let_def split: sum.splits)
  then show ?thesis
    using w1 m by blast
qed

theorem notify_nothing_to_do_witness:
  "\<forall>L. Firing (Alerts (sampleData [\<lparr>Status = ''resolved'', Labels = 5, Annotations = 6\<rparr>])) = []
     \<and> fst (findIssueToReuse L (sampleReceiver [] [] sampleConf 0)
            ''OPS'' (toGroupTicketLabel L [(''team'', ''ops'')] False) emptyWorld)
        = Return (None, False, None)
     \<and> fst (notify L (sampleReceiver [] [] sampleConf 0) sampleHeap
            (sampleData [\<lparr>Status = ''resolved'', Labels = 5, Annotations = 6\<rparr>]) False emptyWorld)
        = Return (False, None)
     \<and> (\<exists>q opts. calls (snd (notify L (sampleReceiver [] [] sampleConf 0) sampleHeap
            (sampleData [\<lparr>Status = ''resolved'', Labels = 5, Annotations = 6\<rparr>]) False emptyWorld))
          = [SearchCall q opts])"
proof
  fix L
  let ?r = "sampleReceiver [] [] sampleConf 0"
  let ?d = "sampleData [\<lparr>Status = ''resolved'', Labels = 5, Annotations = 6\<rparr>]"
  let ?l = "toGroupTicketLabel L [(''team'', ''ops'')] False"
  have h1: "Execute (tmpl ?r) (Project (conf ?r)) sampleHeap ?d = Inr ''OPS''"
    by (simp add: sampleReceiver_def fakeJira_def plainTemplate_def sampleConf_def emptyWorld_def
      sampleHeap_def sampleData_def)
  have h2: "toIssueIdentifierLabel L ?r sampleHeap ?d False = Inr ?l"
    by (simp add: toIssueIdentifierLabel_def sampleReceiver_def fakeJira_def plainTemplate_def sampleConf_def emptyWorld_def
      sampleHeap_def sampleData_def)
  have h3: "findIssueToReuse L ?r ''OPS'' ?l emptyWorld
      = (Return (None, False, None), snd (findIssueToReuse L ?r ''OPS'' ?l emptyWorld))"
    by (simp add: findIssueToReuse_def search_def client_Search_def sampleReceiver_def fakeJira_def plainTemplate_def sampleConf_def emptyWorld_def
      sampleHeap_def sampleData_def Let_def)
  have h4: "Firing (Alerts ?d) = []"
    by (simp add: sampleReceiver_def fakeJira_def plainTemplate_def sampleConf_def emptyWorld_def
      sampleHeap_def sampleData_def Firing_def AlertFiring_def)
  have r: "\<not> isl (Execute (tmpl ?r) (Summary (conf ?r)) sampleHeap ?d)
         \<and> \<not> isl (Execute (tmpl ?r) (Description (conf ?r)) sampleHeap ?d)"
    by (simp add: sampleReceiver_def fakeJira_def plainTemplate_def sampleConf_def emptyWorld_def
      sampleHeap_def sampleData_def)
  show "Firing (Alerts ?d) = []
     \<and> fst (findIssueToReuse L ?r ''OPS'' ?l emptyWorld) = Return (None, False, None)
     \<and> fst (notify L ?r sampleHeap ?d False emptyWorld) = Return (False, None)
     \<and> (\<exists>q opts. calls (snd (notify L ?r sampleHeap ?d False emptyWorld)) = [SearchCall q opts])"
  proof -
    have f: "fst (findIssueToReuse L ?r ''OPS'' ?l emptyWorld) = Return (None, False, None)"
      by (simp add: findIssueToReuse_def search_def client_Search_def sampleReceiver_def fakeJira_def plainTemplate_def sampleConf_def emptyWorld_def
      sampleHeap_def sampleData_def Let_def)
    obtain e q opts where n: "notify L ?r sampleHeap ?d False emptyWorld
          = (Return (False, e), snd (findIssueToReuse L ?r ''OPS'' ?l emptyWorld))"
        and e: "(e = None) = (\<not> isl (Execute (tmpl ?r) (Summary (conf ?r)) sampleHeap ?d)
                         \<and> \<not> isl (Execute (tmpl ?r) (Description (conf ?r)) sampleHeap ?d))"
        and c: "calls (snd (findIssueToReuse L ?r ''OPS'' ?l emptyWorld))
                 = calls emptyWorld @ [SearchCall q opts]"
      using notify_nothing_to_do[OF h1 h2 h3 h4] by blast
    have "e = None" using e r by simp
    then show ?thesis
      using n c f h4 by (simp add: emptyWorld_def)
  qed
qed

text \<open>
  C8 as stated fails: no ticket is found and no alert is firing, but the summary
  template does not render; \<^verbatim>\<open>notify\<close> returns the error of line 213.
\<close>

theorem notify_nothing_to_do_counterexample:
  "\<forall>L. fst (findIssueToReuse L (sampleReceiver [] [] (sampleConf\<lparr>Summary := ''{{''\<rparr>) 0)
            ''OPS'' (toGroupTicketLabel L [(''team'', ''ops'')] False) emptyWorld)
        = Return (None, False, None)
     \<and> Firing (Alerts (sampleData [\<lparr>Status = ''resolved'', Labels = 5, Annotations = 6\<rparr>])) = []
     \<and> fst (notify L (sampleReceiver [] [] (sampleConf\<lparr>Summary := ''{{''\<rparr>) 0)
            sampleHeap (sampleData [\<lparr>Status = ''resolved'', Labels = 5, Annotations = 6\<rparr>])
            False emptyWorld)
        = Return (False, Some ''generate summary from template: unclosed action'')"
  by (simp add: sampleReceiver_def fakeJira_def plainTemplate_def sampleConf_def emptyWorld_def
      sampleHeap_def sampleData_def notify_def notifyFound_def notifyCreate_def toIssueIdentifierLabel_def
      findIssueToReuse_def search_def client_Search_def client_GetTransitions_def
      client_DoTransition_def client_UpdateWithOptions_def client_Create_def updateSummary_def
      updateDescription_def resolveIssue_def reopen_def doTransition_def create_def Firing_def
      AlertFiring_def Let_def Wrap_def)

text \<open>
  C9. When the configured grouping mode is none of by-group, unset, by-rule and
  by-alert, \<^verbatim>\<open>Notify\<close> makes no call to the ticketing system, leaves the store as it
  is, and returns no retry and no error.
\<close>

theorem Notify_unknown_mode:
  assumes "GroupIssueBy (conf r) = Other s"
  shows "Notify L r h data hashJiraLabel w = (Return (False, None), h, w)"
  using assms by (simp add: Notify_def)

theorem Notify_unknown_mode_witness:
  "\<forall>L. GroupIssueBy (conf (sampleReceiver [] [] (sampleConf\<lparr>GroupIssueBy := Other ''team''\<rparr>) 0))
        = Other ''team''
     \<and> Notify L (sampleReceiver [] [] (sampleConf\<lparr>GroupIssueBy := Other ''team''\<rparr>) 0)
          sampleHeap (sampleData sampleAlerts) False emptyWorld
        = (Return (False, None), sampleHeap, emptyWorld)"
proof
  fix L
  have g: "GroupIssueBy (conf (sampleReceiver [] [] (sampleConf\<lparr>GroupIssueBy := Other ''team''\<rparr>) 0))
        = Other ''team''"
    by (simp add: sampleReceiver_def)
  show "GroupIssueBy (conf (sampleReceiver [] [] (sampleConf\<lparr>GroupIssueBy := Other ''team''\<rparr>) 0))
        = Other ''team''
     \<and> Notify L (sampleReceiver [] [] (sampleConf\<lparr>GroupIssueBy := Other ''team''\<rparr>) 0)
          sampleHeap (sampleData sampleAlerts) False emptyWorld
        = (Return (False, None), sampleHeap, emptyWorld)"
    using g Notify_unknown_mode[OF g] by simp
qed

section \<open>Grouping by rule\<close>

lemma heap_eqI: "cells h = cells h' \<Longrightarrow> next_ref h = next_ref h' \<Longrightarrow> (h::heap) = h'"
  by simp

lemma fold_prune_gen:
  assumes "la \<noteq> cl"
  shows "fold (\<lambda>(ln, lv) h. if index (cells h la) ln \<noteq> lv then delete_key cl ln h else h) es h
     = h\<lparr>cells := (cells h)(cl := filter (\<lambda>(k, v). \<forall>(ln, lv) \<in> set es. ln = k \<longrightarrow> index (cells h la) ln = lv) (cells h cl))\<rparr>"
  using assms
proof (induction es arbitrary: h)
  case Nil
  then show ?case by simp
next
  case (Cons e es)
  obtain ln lv where e: "e = (ln, lv)" by (cases e)
  show ?case
  proof (cases "index (cells h la) ln = lv")
    case True
    then show ?thesis using Cons
      by (auto simp: e fun_upd_def case_prod_unfold intro!: heap_eqI filter_cong)
  next
    case False
    have "AList.delete ln (cells h cl) = filter (\<lambda>(k, v). k \<noteq> ln) (cells h cl)"
      by (auto simp: AList.delete_eq case_prod_unfold intro: filter_cong)
    then show ?thesis using Cons False
      by (auto simp: e delete_key_def fun_upd_def case_prod_unfold intro!: heap_eqI filter_cong)
  qed
qed

lemma pruneLabels_eq:
  assumes "Labels a \<noteq> cl" "distinct (map fst (cells h cl))"
  shows "pruneLabels cl a h
     = h\<lparr>cells := (cells h)(cl := filter (\<lambda>(k, v). index (cells h (Labels a)) k = v) (cells h cl))\<rparr>"
proof -
  have "filter (\<lambda>(k, v). \<forall>(ln, lv) \<in> set (cells h cl). ln = k \<longrightarrow> index (cells h (Labels a)) ln = lv) (cells h cl)
      = filter (\<lambda>(k, v). index (cells h (Labels a)) k = v) (cells h cl)"
    using assms(2) by (intro filter_cong) (auto dest: eq_key_imp_eq_value)
  then show ?thesis
    unfolding pruneLabels_def using fold_prune_gen[OF assms(1), of "cells h cl" h] by simp
qed

lemma pruneAnnotations_eq:
  assumes "Annotations a \<noteq> ca" "distinct (map fst (cells h ca))"
  shows "pruneAnnotations ca a h
     = h\<lparr>cells := (cells h)(ca := filter (\<lambda>(k, v). index (cells h (Annotations a)) k = v) (cells h ca))\<rparr>"
proof -
  have "filter (\<lambda>(k, v). \<forall>(ln, lv) \<in> set (cells h ca). ln = k \<longrightarrow> index (cells h (Annotations a)) ln = lv) (cells h ca)
      = filter (\<lambda>(k, v). index (cells h (Annotations a)) k = v) (cells h ca)"
    using assms(2) by (intro filter_cong) (auto dest: eq_key_imp_eq_value)
  then show ?thesis
    unfolding pruneAnnotations_def using fold_prune_gen[OF assms(1), of "cells h ca" h] by simp
qed

lemma distinct_fst_filter: "distinct (map fst xs) \<Longrightarrow> distinct (map fst (filter P xs))"
  by (simp add: distinct_map_filter)

lemma shrinkCommon_eq:
  assumes "cl \<noteq> ca"
    and "\<forall>b\<in>set as. Labels b \<noteq> cl \<and> Labels b \<noteq> ca \<and> Annotations b \<noteq> cl \<and> Annotations b \<noteq> ca"
    and "distinct (map fst (cells h cl))" and "distinct (map fst (cells h ca))"
  shows "shrinkCommon cl ca as h =
    h\<lparr>cells := (cells h)
       (cl := filter (\<lambda>(k, v). \<forall>b\<in>set as. index (cells h (Labels b)) k = v) (cells h cl),
        ca := filter (\<lambda>(k, v). \<forall>b\<in>set as. index (cells h (Annotations b)) k = v) (cells h ca))\<rparr>"
  using assms
proof (induction as arbitrary: h)
  case Nil
  then show ?case by (auto intro!: heap_eqI)
next
  case (Cons a as)
  show ?case
  proof (cases "cells h cl = [] \<and> cells h ca = []")
    case True
    then show ?thesis by (auto intro!: heap_eqI)
  next
    case False
    define h1 where "h1 = pruneLabels cl a h"
    define h2 where "h2 = pruneAnnotations ca a h1"
    have a: "Labels a \<noteq> cl" "Labels a \<noteq> ca" "Annotations a \<noteq> cl" "Annotations a \<noteq> ca"
      using Cons.prems(2) by auto
    have h1: "h1 = h\<lparr>cells := (cells h)(cl := filter (\<lambda>(k, v). index (cells h (Labels a)) k = v) (cells h cl))\<rparr>"
      unfolding h1_def using pruneLabels_eq[OF a(1) Cons.prems(3)] .
    have d1: "distinct (map fst (cells h1 ca))" using Cons.prems(1,4) by (simp add: h1)
    have h2: "h2 = h\<lparr>cells := (cells h)
        (cl := filter (\<lambda>(k, v). index (cells h (Labels a)) k = v) (cells h cl),
         ca := filter (\<lambda>(k, v). index (cells h (Annotations a)) k = v) (cells h ca))\<rparr>"
      unfolding h2_def using pruneAnnotations_eq[OF a(4) d1] Cons.prems(1) a by (simp add: h1)
    have dl: "distinct (map fst (cells h2 cl))" and da: "distinct (map fst (cells h2 ca))"
      using Cons.prems(1,3,4) by (simp_all add: h2 distinct_fst_filter)
    have rest: "\<forall>b\<in>set as. Labels b \<noteq> cl \<and> Labels b \<noteq> ca \<and> Annotations b \<noteq> cl \<and> Annotations b \<noteq> ca"
      using Cons.prems(2) by simp
    have same: "\<forall>b\<in>set as. cells h2 (Labels b) = cells h (Labels b) \<and> cells h2 (Annotations b) = cells h (Annotations b)"
      using rest by (simp add: h2)
    have "shrinkCommon cl ca (a # as) h = shrinkCommon cl ca as h2"
      using False by (auto simp: h2_def h1_def)
    also have "\<dots> = h2\<lparr>cells := (cells h2)
       (cl := filter (\<lambda>(k, v). \<forall>b\<in>set as. index (cells h2 (Labels b)) k = v) (cells h2 cl),
        ca := filter (\<lambda>(k, v). \<forall>b\<in>set as. index (cells h2 (Annotations b)) k = v) (cells h2 ca))\<rparr>"
      using Cons.IH[OF Cons.prems(1) rest dl da] .
    also have "\<dots> = h\<lparr>cells := (cells h)
       (cl := filter (\<lambda>(k, v). \<forall>b\<in>set (a # as). index (cells h (Labels b)) k = v) (cells h cl),
        ca := filter (\<lambda>(k, v). \<forall>b\<in>set (a # as). index (cells h (Annotations b)) k = v) (cells h ca))\<rparr>"
    proof (rule heap_eqI)
      have fl: "filter (\<lambda>(k, v). \<forall>b\<in>set as. index (cells h2 (Labels b)) k = v) (cells h2 cl)
          = filter (\<lambda>(k, v). \<forall>b\<in>set (a # as). index (cells h (Labels b)) k = v) (cells h cl)"
        using same Cons.prems(1) by (auto simp: h2 intro!: filter_cong)
      have fa: "filter (\<lambda>(k, v). \<forall>b\<in>set as. index (cells h2 (Annotations b)) k = v) (cells h2 ca)
          = filter (\<lambda>(k, v). \<forall>b\<in>set (a # as). index (cells h (Annotations b)) k = v) (cells h ca)"
        using same Cons.prems(1) by (auto simp: h2 intro!: filter_cong)
      show "cells (h2\<lparr>cells := (cells h2)
       (cl := filter (\<lambda>(k, v). \<forall>b\<in>set as. index (cells h2 (Labels b)) k = v) (cells h2 cl),
        ca := filter (\<lambda>(k, v). \<forall>b\<in>set as. index (cells h2 (Annotations b)) k = v) (cells h2 ca))\<rparr>)
        = cells (h\<lparr>cells := (cells h)
       (cl := filter (\<lambda>(k, v). \<forall>b\<in>set (a # as). index (cells h (Labels b)) k = v) (cells h cl),
        ca := filter (\<lambda>(k, v). \<forall>b\<in>set (a # as). index (cells h (Annotations b)) k = v) (cells h ca))\<rparr>)"
        unfolding fl fa by (auto simp: h2)
    qed (simp add: h2)
    finally show ?thesis .
  qed
qed

lemma fold_update_map_of:
  assumes "distinct (map fst es)"
  shows "map_of (fold (\<lambda>(k, v). AList.update k v) es m) k
          = (case map_of es k of Some v \<Rightarrow> Some v | None \<Rightarrow> map_of m k)"
  using assms
  by (induction es arbitrary: m) (auto simp: update_conv' split: option.splits dest: map_of_SomeD intro: rev_image_eqI)

lemma copyInto_eq:
  assumes "src \<noteq> dst"
  shows "copyInto src dst h = h\<lparr>cells := (cells h)(dst := fold (\<lambda>(k, v). AList.update k v) (cells h src) (cells h dst))\<rparr>"
proof -
  have "fold (\<lambda>(k, v) h. assign dst k v h) es h
      = h\<lparr>cells := (cells h)(dst := fold (\<lambda>(k, v). AList.update k v) es (cells h dst))\<rparr>" for es
    by (induction es arbitrary: h) (auto simp: assign_def)
  then show ?thesis by (simp add: copyInto_def)
qed

lemma prune_fold_frame:
  "cells (fold (\<lambda>(ln, lv) h. if P h ln lv then delete_key cl ln h else h) es h) r
     = (if r = cl then cells (fold (\<lambda>(ln, lv) h. if P h ln lv then delete_key cl ln h else h) es h) cl else cells h r)"
  by (induction es arbitrary: h) (auto simp: delete_key_def)

lemma pruneLabels_frame: "r \<noteq> cl \<Longrightarrow> cells (pruneLabels cl a h) r = cells h r"
  unfolding pruneLabels_def
  using prune_fold_frame[of "\<lambda>h ln lv. index (cells h (Labels a)) ln \<noteq> lv" cl "cells h cl" h r] by simp

lemma pruneAnnotations_frame: "r \<noteq> ca \<Longrightarrow> cells (pruneAnnotations ca a h) r = cells h r"
  unfolding pruneAnnotations_def
  using prune_fold_frame[of "\<lambda>h ln lv. index (cells h (Annotations a)) ln \<noteq> lv" ca "cells h ca" h r] by simp

lemma shrinkCommon_frame:
  "r \<noteq> cl \<Longrightarrow> r \<noteq> ca \<Longrightarrow> cells (shrinkCommon cl ca as h) r = cells h r"
  by (induction as arbitrary: h) (auto simp: pruneLabels_frame pruneAnnotations_frame)

lemma copyInto_frame: "r \<noteq> dst \<Longrightarrow> cells (copyInto src dst h) r = cells h r"
proof -
  have "r \<noteq> dst \<Longrightarrow> cells (fold (\<lambda>(k, v) h. assign dst k v h) es h) r = cells h r" for es
    by (induction es arbitrary: h) (auto simp: assign_def)
  then show "r \<noteq> dst \<Longrightarrow> cells (copyInto src dst h) r = cells h r"
    by (simp add: copyInto_def)
qed

lemma commonOf_frame:
  assumes "r \<notin> set (footprint data)"
  shows "cells (commonOf data h) r = cells h r"
proof (cases "Alerts data")
  case Nil
  then show ?thesis by (simp add: commonOf_def)
next
  case (Cons a as)
  then have "r \<noteq> Labels a" "r \<noteq> Annotations a" "r \<noteq> CommonLabels data" "r \<noteq> CommonAnnotations data"
    using assms by (auto simp: footprint_def refs_of_def)
  then show ?thesis
    by (simp add: commonOf_def Cons Let_def copyInto_frame shrinkCommon_frame)
qed

lemma fold_commonOf_frame:
  "\<forall>x\<in>set ds. r \<notin> set (footprint x) \<Longrightarrow> cells (fold commonOf ds h) r = cells h r"
  by (induction ds arbitrary: h) (auto simp: commonOf_frame)

lemma map_of_filter_distinct:
  assumes "distinct (map fst xs)"
  shows "map_of (filter P xs) k = Some v \<longleftrightarrow> map_of xs k = Some v \<and> P (k, v)"
  using assms
  by (induction xs) (auto dest: map_of_SomeD intro: rev_image_eqI)

lemma fold_update_empty:
  assumes "distinct (map fst es)"
  shows "map_of (fold (\<lambda>(k, v). AList.update k v) es []) k = map_of es k"
  using fold_update_map_of[OF assms, of "[]" k] by (simp split: option.splits)

lemma commonOf_common:
  assumes "ready h data"
  shows "map_of (cells (commonOf data h) (CommonLabels data)) k = Some v
           \<longleftrightarrow> commonLabel h (Alerts data) k v"
    and "map_of (cells (commonOf data h) (CommonAnnotations data)) k = Some v
           \<longleftrightarrow> commonAnnotation h (Alerts data) k v"
proof -
  obtain a as where as: "Alerts data = a # as"
    using assms by (cases "Alerts data") (auto simp: ready_def)
  define cl where "cl = Labels a"
  define ca where "ca = Annotations a"
  define CL where "CL = CommonLabels data"
  define CA where "CA = CommonAnnotations data"
  have d: "distinct (CL # CA # cl # ca # concat (map refs_of as))"
    using assms by (simp add: ready_def footprint_def as refs_of_def cl_def ca_def CL_def CA_def)
  have ne: "cl \<noteq> ca" "CL \<noteq> cl" "CL \<noteq> ca" "CA \<noteq> cl" "CA \<noteq> ca" "CL \<noteq> CA"
    using d by auto
  have rest: "\<forall>b\<in>set as. Labels b \<noteq> cl \<and> Labels b \<noteq> ca \<and> Annotations b \<noteq> cl \<and> Annotations b \<noteq> ca"
    using d by (auto simp: refs_of_def)
  have dk: "distinct (map fst (cells h cl))" "distinct (map fst (cells h ca))"
    using assms by (simp_all add: ready_def as cl_def ca_def)
  have e: "cells h CL = []" "cells h CA = []"
    using assms by (simp_all add: ready_def CL_def CA_def)
  define h1 where "h1 = shrinkCommon cl ca as h"
  have h1: "h1 = h\<lparr>cells := (cells h)
       (cl := filter (\<lambda>(k, v). \<forall>b\<in>set as. index (cells h (Labels b)) k = v) (cells h cl),
        ca := filter (\<lambda>(k, v). \<forall>b\<in>set as. index (cells h (Annotations b)) k = v) (cells h ca))\<rparr>"
    unfolding h1_def by (rule shrinkCommon_eq[OF ne(1) rest dk])
  define h2 where "h2 = copyInto cl CL h1"
  have h2: "h2 = h1\<lparr>cells := (cells h1)(CL := fold (\<lambda>(k, v). AList.update k v) (cells h1 cl) (cells h1 CL))\<rparr>"
    unfolding h2_def using ne by (intro copyInto_eq) auto
  define h3 where "h3 = copyInto ca CA h2"
  have h3: "h3 = h2\<lparr>cells := (cells h2)(CA := fold (\<lambda>(k, v). AList.update k v) (cells h2 ca) (cells h2 CA))\<rparr>"
    unfolding h3_def using ne by (intro copyInto_eq) auto
  have c: "commonOf data h = h3"
    by (simp add: commonOf_def as Let_def h3_def h2_def h1_def cl_def ca_def CL_def CA_def)
  have l: "cells h3 CL = fold (\<lambda>(k, v). AList.update k v)
             (filter (\<lambda>(k, v). \<forall>b\<in>set as. index (cells h (Labels b)) k = v) (cells h cl)) []"
    using ne e by (simp add: h3 h2 h1)
  have an: "cells h3 CA = fold (\<lambda>(k, v). AList.update k v)
             (filter (\<lambda>(k, v). \<forall>b\<in>set as. index (cells h (Annotations b)) k = v) (cells h ca)) []"
    using ne e by (simp add: h3 h2 h1)
  show "map_of (cells (commonOf data h) (CommonLabels data)) k = Some v
           \<longleftrightarrow> commonLabel h (Alerts data) k v"
    unfolding c CL_def[symmetric] l
    using dk(1)
    by (simp add: fold_update_empty distinct_fst_filter map_of_filter_distinct commonLabel_def as
        cl_def list_all_iff)
  show "map_of (cells (commonOf data h) (CommonAnnotations data)) k = Some v
           \<longleftrightarrow> commonAnnotation h (Alerts data) k v"
    unfolding c CA_def[symmetric] an
    using dk(2)
    by (simp add: fold_update_empty distinct_fst_filter map_of_filter_distinct commonAnnotation_def as
        ca_def list_all_iff)
qed

lemma commonLabel_cong:
  assumes "\<forall>a\<in>set as. cells h' (Labels a) = cells h (Labels a)"
  shows "commonLabel h' as k v = commonLabel h as k v"
  using assms by (cases as) (auto simp: commonLabel_def list_all_iff)

lemma commonAnnotation_cong:
  assumes "\<forall>a\<in>set as. cells h' (Annotations a) = cells h (Annotations a)"
  shows "commonAnnotation h' as k v = commonAnnotation h as k v"
  using assms by (cases as) (auto simp: commonAnnotation_def list_all_iff)

lemma footprint_alert:
  "a \<in> set (Alerts data) \<Longrightarrow> Labels a \<in> set (footprint data) \<and> Annotations a \<in> set (footprint data)"
  by (auto simp: footprint_def refs_of_def)

lemma footprint_common:
  "CommonLabels data \<in> set (footprint data)" "CommonAnnotations data \<in> set (footprint data)"
  by (simp_all add: footprint_def)

lemma ready_cong:
  assumes "\<forall>r\<in>set (footprint data). cells h' r = cells h r"
  shows "ready h' data = ready h data"
proof -
  have "\<forall>a\<in>set (Alerts data). cells h' (Labels a) = cells h (Labels a)
          \<and> cells h' (Annotations a) = cells h (Annotations a)"
    using assms footprint_alert by blast
  then show ?thesis
    using assms footprint_common[of data] by (auto simp: ready_def list_all_iff)
qed

lemma fold_commonOf_common:
  assumes "sorted_wrt (\<lambda>x y. set (footprint x) \<inter> set (footprint y) = {}) ds"
    and "data \<in> set ds" and "ready h data"
  shows "(map_of (cells (fold commonOf ds h) (CommonLabels data)) k = Some v
            \<longleftrightarrow> commonLabel h (Alerts data) k v)
       \<and> (map_of (cells (fold commonOf ds h) (CommonAnnotations data)) k = Some v
            \<longleftrightarrow> commonAnnotation h (Alerts data) k v)"
  using assms
proof (induction ds arbitrary: h)
  case Nil
  then show ?case by simp
next
  case (Cons x rest)
  have apart: "\<forall>y\<in>set rest. set (footprint x) \<inter> set (footprint y) = {}"
    and sorted: "sorted_wrt (\<lambda>x y. set (footprint x) \<inter> set (footprint y) = {}) rest"
    using Cons.prems(1) by simp_all
  show ?case
  proof (cases "data = x")
    case True
    have "\<forall>y\<in>set rest. CommonLabels x \<notin> set (footprint y)"
      "\<forall>y\<in>set rest. CommonAnnotations x \<notin> set (footprint y)"
      using apart footprint_common[of x] by blast+
    then have "cells (fold commonOf rest (commonOf x h)) (CommonLabels x) = cells (commonOf x h) (CommonLabels x)"
      "cells (fold commonOf rest (commonOf x h)) (CommonAnnotations x) = cells (commonOf x h) (CommonAnnotations x)"
      by (simp_all add: fold_commonOf_frame)
    then show ?thesis
      using commonOf_common[of h x k v] Cons.prems(3) True by simp
  next
    case False
    then have mem: "data \<in> set rest"
      using Cons.prems(2) by simp
    then have "set (footprint x) \<inter> set (footprint data) = {}"
      using apart by blast
    then have "\<forall>r\<in>set (footprint data). r \<notin> set (footprint x)"
      by blast
    then have same: "\<forall>r\<in>set (footprint data). cells (commonOf x h) r = cells h r"
      by (simp add: commonOf_frame)
    have r: "ready (commonOf x h) data"
      using ready_cong[OF same] Cons.prems(3) by simp
    have "\<forall>a\<in>set (Alerts data). cells (commonOf x h) (Labels a) = cells h (Labels a)
          \<and> cells (commonOf x h) (Annotations a) = cells h (Annotations a)"
      using same footprint_alert by blast
    then have "commonLabel (commonOf x h) (Alerts data) k v = commonLabel h (Alerts data) k v"
      "commonAnnotation (commonOf x h) (Alerts data) k v = commonAnnotation h (Alerts data) k v"
      by (simp_all add: commonLabel_cong commonAnnotation_cong)
    then show ?thesis
      using Cons.IH[OF sorted mem r] by simp
  qed
qed

lemma toAlertRule_eq:
  "toAlertRule d h =
    (map snd (snd (fold (addAlert d) (Alerts d) (h, []))),
     fold commonOf (map snd (snd (fold (addAlert d) (Alerts d) (h, []))))
       (fst (fold (addAlert d) (Alerts d) (h, []))))"
proof -
  have "fold (\<lambda>(name, data) (slice, h). (slice @ [data], commonOf data h)) ad (acc, h1)
         = (acc @ map snd ad, fold commonOf (map snd ad) h1)" for ad acc h1
    by (induction ad arbitrary: acc h1) (auto simp: case_prod_unfold)
  from this[of "snd (fold (addAlert d) (Alerts d) (h, []))" "[]" "fst (fold (addAlert d) (Alerts d) (h, []))"]
  show ?thesis
    by (simp add: toAlertRule_def case_prod_unfold)
qed

lemma addAlert_skip:
  assumes "ruleOf h1 x = None"
  shows "addAlert d x (h1, ad) = (h1, ad)"
  using assms by (simp add: addAlert_def lookup_def ruleOf_def)

lemma addAlert_old:
  assumes "ruleOf h1 x = Some name" and "map_of ad name = Some data"
  shows "addAlert d x (h1, ad) =
    (h1, AList.update name
           (data\<lparr>Alerts := Alerts data @ [x],
                  Status_d := (if Status x = AlertFiring then AlertFiring else Status_d data)\<rparr>) ad)"
  using assms by (simp add: addAlert_def lookup_def ruleOf_def Let_def)

lemma addAlert_new:
  assumes "ruleOf h1 x = Some name" and "map_of ad name = None"
  shows "addAlert d x (h1, ad) =
    (h1\<lparr>cells := (cells h1)(next_ref h1 := [], Suc (next_ref h1) := []),
         next_ref := Suc (Suc (next_ref h1))\<rparr>,
     AList.update name
       \<lparr>Receiver_d = '''', Status_d = (if Status x = AlertFiring then AlertFiring else AlertResolved),
        Alerts = [x], GroupLabels = GroupLabels d, CommonLabels = Suc (next_ref h1),
        CommonAnnotations = next_ref h1, ExternalURL = ExternalURL d, Version = '''',
        GroupKey = GroupKey d\<rparr> ad)"
  using assms by (simp add: addAlert_def lookup_def ruleOf_def Let_def make_KV_def)

lemma entry_ok_skip:
  assumes "entry_ok h0 xs h1 n data" and "ruleOf h0 x \<noteq> Some n"
  shows "entry_ok h0 (xs @ [x]) h1 n data"
  using assms by (auto simp: entry_ok_def)

lemma groupedD:
  assumes "grouped h0 xs h1 ad"
  shows "distinct (map fst ad)"
    and "fst ` set ad = {n. \<exists>a\<in>set xs. ruleOf h0 a = Some n}"
    and "next_ref h0 \<le> next_ref h1"
    and "\<And>r. r < next_ref h0 \<Longrightarrow> cells h1 r = cells h0 r"
    and "\<And>n data. map_of ad n = Some data \<Longrightarrow> entry_ok h0 xs h1 n data"
    and "\<And>n data n' data'. map_of ad n = Some data \<Longrightarrow> map_of ad n' = Some data' \<Longrightarrow> n \<noteq> n'
          \<Longrightarrow> CommonAnnotations data + 2 \<le> CommonAnnotations data'
              \<or> CommonAnnotations data' + 2 \<le> CommonAnnotations data"
proof -
  show "distinct (map fst ad)" using assms by (simp add: grouped_def)
  show "fst ` set ad = {n. \<exists>a\<in>set xs. ruleOf h0 a = Some n}" using assms by (simp add: grouped_def)
  show "next_ref h0 \<le> next_ref h1" using assms by (simp add: grouped_def)
  show "\<And>r. r < next_ref h0 \<Longrightarrow> cells h1 r = cells h0 r" using assms by (simp add: grouped_def)
  show "\<And>n data. map_of ad n = Some data \<Longrightarrow> entry_ok h0 xs h1 n data"
    using assms by (simp add: grouped_def)
  have "\<forall>n data n' data'. map_of ad n = Some data \<longrightarrow> map_of ad n' = Some data' \<longrightarrow> n \<noteq> n' \<longrightarrow>
           CommonAnnotations data + 2 \<le> CommonAnnotations data'
           \<or> CommonAnnotations data' + 2 \<le> CommonAnnotations data"
    using assms unfolding grouped_def by (elim conjE)
  then show "\<And>n data n' data'. map_of ad n = Some data \<Longrightarrow> map_of ad n' = Some data' \<Longrightarrow> n \<noteq> n'
          \<Longrightarrow> CommonAnnotations data + 2 \<le> CommonAnnotations data'
              \<or> CommonAnnotations data' + 2 \<le> CommonAnnotations data"
    by blast
qed

lemma grouped_skip:
  assumes g: "grouped h0 xs h1 ad" and r: "ruleOf h0 x = None"
  shows "grouped h0 (xs @ [x]) h1 ad"
  unfolding grouped_def
proof (intro conjI allI impI)
  show "distinct (map fst ad)" by (rule groupedD(1)[OF g])
  show "fst ` set ad = {n. \<exists>a\<in>set (xs @ [x]). ruleOf h0 a = Some n}"
    using groupedD(2)[OF g] r by auto
  show "next_ref h0 \<le> next_ref h1" by (rule groupedD(3)[OF g])
  show "cells h1 q = cells h0 q" if "q < next_ref h0" for q
    using groupedD(4)[OF g that] .
  show "entry_ok h0 (xs @ [x]) h1 n data" if "map_of ad n = Some data" for n data
    using groupedD(5)[OF g that] r by (intro entry_ok_skip) auto
  show "CommonAnnotations data + 2 \<le> CommonAnnotations data'
          \<or> CommonAnnotations data' + 2 \<le> CommonAnnotations data"
    if "map_of ad n = Some data" "map_of ad n' = Some data'" "n \<noteq> n'" for n data n' data'
    using groupedD(6)[OF g that] .
qed

lemma grouped_old:
  assumes g: "grouped h0 xs h1 ad" and r: "ruleOf h0 x = Some name" and m: "map_of ad name = Some data"
  shows "grouped h0 (xs @ [x]) h1
    (AList.update name
       (data\<lparr>Alerts := Alerts data @ [x],
              Status_d := (if Status x = AlertFiring then AlertFiring else Status_d data)\<rparr>) ad)"
proof -
  let ?data = "data\<lparr>Alerts := Alerts data @ [x],
              Status_d := (if Status x = AlertFiring then AlertFiring else Status_d data)\<rparr>"
  have e: "entry_ok h0 xs h1 name data"
    by (rule groupedD(5)[OF g m])
  have e': "entry_ok h0 (xs @ [x]) h1 name ?data"
    using e r by (auto simp: entry_ok_def)
  have k: "name \<in> fst ` set ad"
    using m map_of_eq_None_iff[of ad name] by simp
  have "set (map fst (AList.update name ?data ad)) = set (map fst ad)"
    using k by (simp add: update_keys)
  then have "fst ` set (AList.update name ?data ad) = fst ` set ad"
    by simp
  moreover have "\<exists>a\<in>set xs. ruleOf h0 a = Some name"
    using groupedD(2)[OF g] k by auto
  ultimately have dom: "fst ` set (AList.update name ?data ad) = {n. \<exists>a\<in>set (xs @ [x]). ruleOf h0 a = Some n}"
    using groupedD(2)[OF g] r by auto
  show ?thesis
    unfolding grouped_def
  proof (intro conjI allI impI)
    show "distinct (map fst (AList.update name ?data ad))"
      using groupedD(1)[OF g] by (simp add: distinct_update)
    show "fst ` set (AList.update name ?data ad) = {n. \<exists>a\<in>set (xs @ [x]). ruleOf h0 a = Some n}"
      by (rule dom)
    show "next_ref h0 \<le> next_ref h1" by (rule groupedD(3)[OF g])
    show "cells h1 r = cells h0 r" if "r < next_ref h0" for r
      using groupedD(4)[OF g that] .
    show "entry_ok h0 (xs @ [x]) h1 n dt" if "map_of (AList.update name ?data ad) n = Some dt" for n dt
    proof (cases "n = name")
      case True
      then show ?thesis using that e' by (simp add: update_conv')
    next
      case False
      then have "map_of ad n = Some dt" using that by (simp add: update_conv')
      then have "entry_ok h0 xs h1 n dt" by (rule groupedD(5)[OF g])
      then show ?thesis using False r by (intro entry_ok_skip) auto
    qed
    show "CommonAnnotations dt + 2 \<le> CommonAnnotations dt' \<or> CommonAnnotations dt' + 2 \<le> CommonAnnotations dt"
      if A: "map_of (AList.update name ?data ad) n = Some dt"
        and B: "map_of (AList.update name ?data ad) n' = Some dt'" and C: "n \<noteq> n'" for n dt n' dt'
    proof -
      have "\<exists>o1. map_of ad n = Some o1 \<and> CommonAnnotations o1 = CommonAnnotations dt"
        using A m by (cases "n = name") (auto simp: update_conv')
      then obtain o1 where o1: "map_of ad n = Some o1" "CommonAnnotations o1 = CommonAnnotations dt"
        by blast
      have "\<exists>o2. map_of ad n' = Some o2 \<and> CommonAnnotations o2 = CommonAnnotations dt'"
        using B m by (cases "n' = name") (auto simp: update_conv')
      then obtain o2 where o2: "map_of ad n' = Some o2" "CommonAnnotations o2 = CommonAnnotations dt'"
        by blast
      show ?thesis
        using groupedD(6)[OF g o1(1) o2(1) C] o1(2) o2(2) by simp
    qed
  qed
qed

lemma grouped_new:
  assumes g: "grouped h0 xs h1 ad" and r: "ruleOf h0 x = Some name" and m: "map_of ad name = None"
  shows "grouped h0 (xs @ [x])
    (h1\<lparr>cells := (cells h1)(next_ref h1 := [], Suc (next_ref h1) := []),
         next_ref := Suc (Suc (next_ref h1))\<rparr>)
    (AList.update name
       \<lparr>Receiver_d = '''', Status_d = (if Status x = AlertFiring then AlertFiring else AlertResolved),
        Alerts = [x], GroupLabels = GroupLabels d, CommonLabels = Suc (next_ref h1),
        CommonAnnotations = next_ref h1, ExternalURL = ExternalURL d, Version = '''',
        GroupKey = GroupKey d\<rparr> ad)"
    (is "grouped h0 (xs @ [x]) ?h2 (AList.update name ?data ad)")
proof -
  have le: "next_ref h0 \<le> next_ref h1"
    by (rule groupedD(3)[OF g])
  have k: "name \<notin> fst ` set ad"
    using m by (simp add: map_of_eq_None_iff)
  then have none: "filter (\<lambda>a. ruleOf h0 a = Some name) xs = []"
    using groupedD(2)[OF g] by (auto simp: filter_empty_conv)
  have e': "entry_ok h0 (xs @ [x]) ?h2 name ?data"
    using r none le by (simp add: entry_ok_def)
  have old: "entry_ok h0 (xs @ [x]) ?h2 n dt" if o: "map_of ad n = Some dt" for n dt
  proof -
    have "n \<noteq> name" using o m by auto
    moreover have "entry_ok h0 xs h1 n dt" by (rule groupedD(5)[OF g o])
    ultimately show ?thesis using r by (auto simp: entry_ok_def)
  qed
  have below: "CommonAnnotations dt + 2 \<le> next_ref h1" if o: "map_of ad n = Some dt" for n dt
  proof -
    have "entry_ok h0 xs h1 n dt" by (rule groupedD(5)[OF g o])
    then show ?thesis by (auto simp: entry_ok_def)
  qed
  show ?thesis
    unfolding grouped_def
  proof (intro conjI allI impI)
    show "distinct (map fst (AList.update name ?data ad))"
      using groupedD(1)[OF g] by (simp add: distinct_update)
    have "set (map fst (AList.update name ?data ad)) = insert name (set (map fst ad))"
      using k by (simp add: update_keys)
    then have "fst ` set (AList.update name ?data ad) = insert name (fst ` set ad)"
      by simp
    then show "fst ` set (AList.update name ?data ad) = {n. \<exists>a\<in>set (xs @ [x]). ruleOf h0 a = Some n}"
      using groupedD(2)[OF g] r by auto
    show "next_ref h0 \<le> next_ref ?h2" using le by simp
    show "cells ?h2 q = cells h0 q" if "q < next_ref h0" for q
      using groupedD(4)[OF g that] that le by simp
    show "entry_ok h0 (xs @ [x]) ?h2 n dt" if "map_of (AList.update name ?data ad) n = Some dt" for n dt
      using that e' old by (cases "n = name") (auto simp: update_conv')
    show "CommonAnnotations dt + 2 \<le> CommonAnnotations dt' \<or> CommonAnnotations dt' + 2 \<le> CommonAnnotations dt"
      if A: "map_of (AList.update name ?data ad) n = Some dt"
        and B: "map_of (AList.update name ?data ad) n' = Some dt'" and C: "n \<noteq> n'" for n dt n' dt'
    proof (cases "n = name")
      case True
      then have "dt = ?data" "map_of ad n' = Some dt'"
        using A B C by (auto simp: update_conv')
      then show ?thesis using below by fastforce
    next
      case False
      then have a: "map_of ad n = Some dt" using A by (simp add: update_conv')
      show ?thesis
      proof (cases "n' = name")
        case True
        then have "dt' = ?data" using B by (simp add: update_conv')
        then show ?thesis using below[OF a] by simp
      next
        case False
        then have "map_of ad n' = Some dt'" using B by (simp add: update_conv')
        then show ?thesis using groupedD(6)[OF g a _ C] by simp
      qed
    qed
  qed
qed

lemma fold_addAlert_grouped:
  assumes "\<forall>a\<in>set xs. Labels a < next_ref h0"
  shows "grouped h0 xs (fst (fold (addAlert d) xs (h0, []))) (snd (fold (addAlert d) xs (h0, [])))"
  using assms
proof (induction xs rule: rev_induct)
  case Nil
  then show ?case by (simp add: grouped_def)
next
  case (snoc x xs)
  define h1 where "h1 = fst (fold (addAlert d) xs (h0, []))"
  define ad where "ad = snd (fold (addAlert d) xs (h0, []))"
  have g: "grouped h0 xs h1 ad"
    using snoc by (simp add: h1_def ad_def)
  have f: "fold (addAlert d) (xs @ [x]) (h0, []) = addAlert d x (h1, ad)"
    by (simp add: h1_def ad_def)
  have "cells h1 (Labels x) = cells h0 (Labels x)"
    using groupedD(4)[OF g] snoc.prems by simp
  then have same: "ruleOf h1 x = ruleOf h0 x"
    by (simp add: ruleOf_def)
  show ?case
  proof (cases "ruleOf h0 x")
    case None
    then show ?thesis
      unfolding f using addAlert_skip[of h1 x d ad] grouped_skip[OF g] same by simp
  next
    case (Some name)
    show ?thesis
    proof (cases "map_of ad name")
      case None
      show ?thesis
        unfolding f using addAlert_new[of h1 x name ad d] grouped_new[OF g Some None, of d] same Some None
        by simp
    next
      case old: (Some data)
      show ?thesis
        unfolding f using addAlert_old[of h1 x name ad data d] grouped_old[OF g Some old] same Some old
        by simp
    qed
  qed
qed

lemma distinct_concat_filter:
  "distinct (concat (map f xs)) \<Longrightarrow> distinct (concat (map f (filter P xs)))"
  by (induction xs) auto

lemma distinct_concat_apart:
  "distinct (concat (map f xs)) \<Longrightarrow> a \<in> set xs \<Longrightarrow> b \<in> set xs \<Longrightarrow> a \<noteq> b
    \<Longrightarrow> set (f a) \<inter> set (f b) = {}"
  by (induction xs) auto

lemma sorted_wrt_distinct_keys:
  assumes "distinct (map fst ad)"
    and "\<forall>p\<in>set ad. \<forall>q\<in>set ad. fst p \<noteq> fst q \<longrightarrow> R (snd p) (snd q)"
  shows "sorted_wrt R (map snd ad)"
  using assms by (induction ad) (auto simp: rev_image_eqI)

text \<open>
  C4, as amended. For a batch whose alerts have maps of their own, by-rule grouping
  returns one notification per distinct value of \<^verbatim>\<open>alertname\<close> among the alerts that
  carry the label, holding the alerts of that value in their order; its status is
  firing if one of its alerts is firing and resolved otherwise; and a key \<open>k\<close> maps to
  \<open>v\<close> in its common labels (annotations) exactly when the first of its alerts maps
  \<open>k\<close> to \<open>v\<close> and every later one reads \<open>v\<close> at \<open>k\<close>, a missing key being read as the
  empty string. The maps of the alerts are read as they were before the call.
\<close>

theorem toAlertRule_groups:
  assumes sep: "separate h (Alerts d)" and run: "toAlertRule d h = (slice, h')"
  shows "(\<exists>names. distinct names
            \<and> set names = {n. \<exists>a\<in>set (Alerts d). ruleOf h a = Some n}
            \<and> map Alerts slice = map (\<lambda>n. filter (\<lambda>a. ruleOf h a = Some n) (Alerts d)) names)
       \<and> (\<forall>out\<in>set slice.
             Status_d out = (if \<exists>a\<in>set (Alerts out). Status a = AlertFiring
                             then AlertFiring else AlertResolved))
       \<and> (\<forall>out\<in>set slice. \<forall>k v.
             (map_of (cells h' (CommonLabels out)) k = Some v) = commonLabel h (Alerts out) k v
             \<and> (map_of (cells h' (CommonAnnotations out)) k = Some v)
                 = commonAnnotation h (Alerts out) k v)"
proof -
  define xs where "xs = Alerts d"
  define h1 where "h1 = fst (fold (addAlert d) xs (h, []))"
  define ad where "ad = snd (fold (addAlert d) xs (h, []))"
  have refs: "\<forall>a\<in>set xs. Labels a < next_ref h \<and> Annotations a < next_ref h"
    and keys: "\<forall>a\<in>set xs. distinct (map fst (cells h (Labels a))) \<and> distinct (map fst (cells h (Annotations a)))"
    and dis: "distinct (concat (map refs_of xs))"
    using sep by (auto simp: separate_def xs_def list_all_iff)
  have g: "grouped h xs h1 ad"
    unfolding h1_def ad_def using refs by (intro fold_addAlert_grouped) simp
  have "slice = fst (toAlertRule d h)" and "h' = snd (toAlertRule d h)"
    using run by simp_all
  then have slice: "slice = map snd ad" and h': "h' = fold commonOf (map snd ad) h1"
    unfolding toAlertRule_eq h1_def ad_def xs_def by simp_all
  have dk: "distinct (map fst ad)"
    by (rule groupedD(1)[OF g])
  have dom: "fst ` set ad = {n. \<exists>a\<in>set xs. ruleOf h a = Some n}"
    by (rule groupedD(2)[OF g])
  have same: "cells h1 r = cells h r" if "r < next_ref h" for r
    by (rule groupedD(4)[OF g that])
  have entry: "entry_ok h xs h1 n data" if "(n, data) \<in> set ad" for n data
    using groupedD(5)[OF g, of n data] that dk by simp
  have far: "CommonAnnotations data + 2 \<le> CommonAnnotations data'
              \<or> CommonAnnotations data' + 2 \<le> CommonAnnotations data"
    if "(n, data) \<in> set ad" "(n', data') \<in> set ad" "n \<noteq> n'" for n data n' data'
  proof -
    have "map_of ad n = Some data" "map_of ad n' = Some data'"
      using that dk by simp_all
    then show ?thesis using groupedD(6)[OF g _ _ that(3)] by simp
  qed
  have alerts_in: "set (Alerts data) \<subseteq> set xs" if "(n, data) \<in> set ad" for n data
    using entry[OF that] by (auto simp: entry_ok_def)
  have low: "r < next_ref h" if "(n, data) \<in> set ad" "r \<in> set (concat (map refs_of (Alerts data)))" for n data r
    using alerts_in[OF that(1)] that(2) refs by (auto simp: refs_of_def)
  have high: "next_ref h \<le> CommonAnnotations data" "CommonLabels data = Suc (CommonAnnotations data)"
    if "(n, data) \<in> set ad" for n data
    using entry[OF that] by (simp_all add: entry_ok_def)
  have rdy: "ready h1 data" if m: "(n, data) \<in> set ad" for n data
  proof -
    have e: "entry_ok h xs h1 n data" by (rule entry[OF m])
    have "n \<in> fst ` set ad" using m by (simp add: rev_image_eqI)
    then have "\<exists>a\<in>set xs. ruleOf h a = Some n" using dom by simp
    then have ne: "Alerts data \<noteq> []" using e by (auto simp: entry_ok_def filter_empty_conv)
    have "distinct (concat (map refs_of (Alerts data)))"
      using e dis by (simp add: entry_ok_def distinct_concat_filter)
    then have df: "distinct (footprint data)"
      using high[OF m] low[OF m] by (fastforce simp: footprint_def)
    have "\<forall>a\<in>set (Alerts data). distinct (map fst (cells h1 (Labels a)))
            \<and> distinct (map fst (cells h1 (Annotations a)))"
      using alerts_in[OF m] keys refs same by (metis subsetD)
    moreover have "cells h1 (CommonLabels data) = []" "cells h1 (CommonAnnotations data) = []"
      using e by (auto simp: entry_ok_def)
    ultimately show ?thesis
      using ne df by (simp add: ready_def list_all_iff)
  qed
  have apart: "set (footprint data) \<inter> set (footprint data') = {}"
    if m: "(n, data) \<in> set ad" and m': "(n', data') \<in> set ad" and ne: "n \<noteq> n'" for n data n' data'
  proof -
    have a: "set (refs_of a) \<inter> set (refs_of b) = {}"
      if "a \<in> set (Alerts data)" "b \<in> set (Alerts data')" for a b
    proof -
      have ab: "ruleOf h a = Some n" "ruleOf h b = Some n'" "a \<in> set xs" "b \<in> set xs"
        using that entry[OF m] entry[OF m'] by (auto simp: entry_ok_def)
      then have "a \<noteq> b" using ne by auto
      then show ?thesis using ab distinct_concat_apart[OF dis, of a b] by blast
    qed
    have "set (concat (map refs_of (Alerts data))) \<inter> set (concat (map refs_of (Alerts data'))) = {}"
      using a by fastforce
    then show ?thesis
      using far[OF m m' ne] high[OF m] high[OF m'] low[OF m] low[OF m']
      by (fastforce simp: footprint_def)
  qed
  have sorted: "sorted_wrt (\<lambda>x y. set (footprint x) \<inter> set (footprint y) = {}) (map snd ad)"
  proof (rule sorted_wrt_distinct_keys[OF dk], intro ballI impI)
    fix p q assume "p \<in> set ad" "q \<in> set ad" "fst p \<noteq> fst q"
    then show "set (footprint (snd p)) \<inter> set (footprint (snd q)) = {}"
      using apart[of "fst p" "snd p" "fst q" "snd q"] by simp
  qed
  have part1: "\<exists>names. distinct names
            \<and> set names = {n. \<exists>a\<in>set (Alerts d). ruleOf h a = Some n}
            \<and> map Alerts slice = map (\<lambda>n. filter (\<lambda>a. ruleOf h a = Some n) (Alerts d)) names"
  proof (intro exI[of _ "map fst ad"] conjI)
    show "distinct (map fst ad)" by (rule dk)
    show "set (map fst ad) = {n. \<exists>a\<in>set (Alerts d). ruleOf h a = Some n}"
      using dom by (simp add: xs_def)
    show "map Alerts slice = map (\<lambda>n. filter (\<lambda>a. ruleOf h a = Some n) (Alerts d)) (map fst ad)"
      using entry by (auto simp: slice entry_ok_def xs_def)
  qed
  have part2: "Status_d out = (if \<exists>a\<in>set (Alerts out). Status a = AlertFiring
                             then AlertFiring else AlertResolved)" if o: "out \<in> set slice" for out
  proof -
    obtain n where "(n, out) \<in> set ad" using o by (auto simp: slice)
    then show ?thesis using entry by (auto simp: entry_ok_def list_ex_iff)
  qed
  have part3: "(map_of (cells h' (CommonLabels out)) k = Some v) = commonLabel h (Alerts out) k v
             \<and> (map_of (cells h' (CommonAnnotations out)) k = Some v)
                 = commonAnnotation h (Alerts out) k v" if o: "out \<in> set slice" for out k v
  proof -
    obtain n where m: "(n, out) \<in> set ad" using o by (auto simp: slice)
    have "\<forall>a\<in>set (Alerts out). cells h1 (Labels a) = cells h (Labels a)
            \<and> cells h1 (Annotations a) = cells h (Annotations a)"
      using alerts_in[OF m] refs same by (metis subsetD)
    then have "commonLabel h1 (Alerts out) k v = commonLabel h (Alerts out) k v"
      "commonAnnotation h1 (Alerts out) k v = commonAnnotation h (Alerts out) k v"
      by (simp_all add: commonLabel_cong commonAnnotation_cong)
    then show ?thesis
      using fold_commonOf_common[OF sorted _ rdy[OF m], of k v] o by (simp add: h' slice)
  qed
  show ?thesis
    using part1 part2 part3 by blast
qed

lemma toAlertRule_sample:
  "fst (toAlertRule (sampleData sampleAlerts) sampleHeap) =
    [\<lparr>Receiver_d = '''', Status_d = ''firing'',
       Alerts = [\<lparr>Status = ''firing'', Labels = 3, Annotations = 4\<rparr>,
                 \<lparr>Status = ''resolved'', Labels = 5, Annotations = 6\<rparr>],
       GroupLabels = 0, CommonLabels = 12, CommonAnnotations = 11,
       ExternalURL = ''http://alertmanager'', Version = '''', GroupKey = ''key''\<rparr>,
     \<lparr>Receiver_d = '''', Status_d = ''firing'',
       Alerts = [\<lparr>Status = ''firing'', Labels = 7, Annotations = 8\<rparr>],
       GroupLabels = 0, CommonLabels = 14, CommonAnnotations = 13,
       ExternalURL = ''http://alertmanager'', Version = '''', GroupKey = ''key''\<rparr>]"
  by (simp add: toAlertRule_def addAlert_def lookup_def make_KV_def commonOf_def pruneLabels_def
      pruneAnnotations_def copyInto_def index_def delete_key_def assign_def AlertFiring_def
      AlertResolved_def Let_def sampleData_def sampleAlerts_def sampleHeap_def)

theorem toAlertRule_groups_witness:
  "separate sampleHeap (Alerts (sampleData sampleAlerts))
   \<and> map Alerts (fst (toAlertRule (sampleData sampleAlerts) sampleHeap))
       = [[\<lparr>Status = ''firing'', Labels = 3, Annotations = 4\<rparr>,
           \<lparr>Status = ''resolved'', Labels = 5, Annotations = 6\<rparr>],
          [\<lparr>Status = ''firing'', Labels = 7, Annotations = 8\<rparr>]]
   \<and> map Status_d (fst (toAlertRule (sampleData sampleAlerts) sampleHeap)) = [''firing'', ''firing'']
   \<and> (\<forall>k v. (map_of (cells (snd (toAlertRule (sampleData sampleAlerts) sampleHeap)) 12) k = Some v)
             = commonLabel sampleHeap
                 [\<lparr>Status = ''firing'', Labels = 3, Annotations = 4\<rparr>,
                  \<lparr>Status = ''resolved'', Labels = 5, Annotations = 6\<rparr>] k v)
   \<and> (\<forall>k v. (map_of (cells (snd (toAlertRule (sampleData sampleAlerts) sampleHeap)) 11) k = Some v)
             = commonAnnotation sampleHeap
                 [\<lparr>Status = ''firing'', Labels = 3, Annotations = 4\<rparr>,
                  \<lparr>Status = ''resolved'', Labels = 5, Annotations = 6\<rparr>] k v)
   \<and> commonLabel sampleHeap
         [\<lparr>Status = ''firing'', Labels = 3, Annotations = 4\<rparr>,
          \<lparr>Status = ''resolved'', Labels = 5, Annotations = 6\<rparr>] ''alertname'' ''A''
   \<and> \<not> commonLabel sampleHeap
         [\<lparr>Status = ''firing'', Labels = 3, Annotations = 4\<rparr>,
          \<lparr>Status = ''resolved'', Labels = 5, Annotations = 6\<rparr>] ''sev'' ''high''"
proof -
  let ?d = "sampleData sampleAlerts"
  let ?out = "\<lparr>Receiver_d = '''', Status_d = ''firing'',
       Alerts = [\<lparr>Status = ''firing'', Labels = 3, Annotations = 4\<rparr>,
                 \<lparr>Status = ''resolved'', Labels = 5, Annotations = 6\<rparr>],
       GroupLabels = 0, CommonLabels = 12, CommonAnnotations = 11,
       ExternalURL = ''http://alertmanager'', Version = '''', GroupKey = ''key''\<rparr>"
  have sep: "separate sampleHeap (Alerts ?d)"
    by (simp add: separate_def sampleData_def sampleAlerts_def sampleHeap_def refs_of_def)
  have run: "toAlertRule ?d sampleHeap = (fst (toAlertRule ?d sampleHeap), snd (toAlertRule ?d sampleHeap))"
    by simp
  have mem: "?out \<in> set (fst (toAlertRule ?d sampleHeap))"
    unfolding toAlertRule_sample by simp
  have "\<forall>out\<in>set (fst (toAlertRule ?d sampleHeap)). \<forall>k v.
          (map_of (cells (snd (toAlertRule ?d sampleHeap)) (CommonLabels out)) k = Some v)
            = commonLabel sampleHeap (Alerts out) k v
          \<and> (map_of (cells (snd (toAlertRule ?d sampleHeap)) (CommonAnnotations out)) k = Some v)
            = commonAnnotation sampleHeap (Alerts out) k v"
    using toAlertRule_groups[OF sep run] by blast
  from this[rule_format, OF mem]
  have common: "(map_of (cells (snd (toAlertRule ?d sampleHeap)) 12) k = Some v)
            = commonLabel sampleHeap (Alerts ?out) k v"
    "(map_of (cells (snd (toAlertRule ?d sampleHeap)) 11) k = Some v)
            = commonAnnotation sampleHeap (Alerts ?out) k v" for k v
    by simp_all
  have a: "map Alerts (fst (toAlertRule ?d sampleHeap))
       = [[\<lparr>Status = ''firing'', Labels = 3, Annotations = 4\<rparr>,
           \<lparr>Status = ''resolved'', Labels = 5, Annotations = 6\<rparr>],
          [\<lparr>Status = ''firing'', Labels = 7, Annotations = 8\<rparr>]]"
    "map Status_d (fst (toAlertRule ?d sampleHeap)) = [''firing'', ''firing'']"
    unfolding toAlertRule_sample by simp_all
  have c: "commonLabel sampleHeap (Alerts ?out) ''alertname'' ''A''"
    "\<not> commonLabel sampleHeap (Alerts ?out) ''sev'' ''high''"
    by (simp_all add: commonLabel_def sampleHeap_def index_def lookup_def)
  show ?thesis
    using sep a common c by simp
qed

text \<open>
  C4 as stated fails: of two alerts of one rule, the first has the label \<^verbatim>\<open>zone\<close> with
  the empty string as its value and the second has no label \<^verbatim>\<open>zone\<close>; the label is
  in the common labels of the group, although the second alert does not map it.
\<close>

theorem toAlertRule_blank_counterexample:
  "map Alerts (fst (toAlertRule (sampleData blankAlerts) blankHeap))
     = [[\<lparr>Status = ''firing'', Labels = 3, Annotations = 4\<rparr>,
         \<lparr>Status = ''firing'', Labels = 5, Annotations = 6\<rparr>]]
   \<and> map CommonLabels (fst (toAlertRule (sampleData blankAlerts) blankHeap)) = [8]
   \<and> map_of (cells (snd (toAlertRule (sampleData blankAlerts) blankHeap)) 8) ''zone'' = Some ''''
   \<and> map_of (cells blankHeap 5) ''zone'' = None
   \<and> map_of (cells (snd (toAlertRule (sampleData blankAlerts) blankHeap)) 5) ''zone'' = None"
  by (simp add: toAlertRule_def addAlert_def lookup_def make_KV_def commonOf_def pruneLabels_def
      pruneAnnotations_def copyInto_def index_def delete_key_def assign_def AlertFiring_def
      AlertResolved_def Let_def sampleData_def blankAlerts_def blankHeap_def)

text \<open>
  C2. The batch of section 8: two alerts of the rule \<^verbatim>\<open>A\<close> whose label \<^verbatim>\<open>sev\<close>
  differs. The claim says the alerts of the original notification keep their labels;
  after \<^verbatim>\<open>toAlertRule\<close> the label map of the first alert (cell 3) has lost \<^verbatim>\<open>sev\<close>:
  lines 128-129 take the maps of the first alert themselves as the common maps, and
  lines 137 and 142 delete from them.
\<close>

theorem toAlertRule_shrinks_first_alert:
  "map Labels (Alerts (sampleData sampleAlerts)) = [3, 5, 7, 9]
   \<and> cells sampleHeap 3 = [(''alertname'', ''A''), (''sev'', ''high'')]
   \<and> cells (snd (toAlertRule (sampleData sampleAlerts) sampleHeap)) 3 = [(''alertname'', ''A'')]"
  by (simp add: toAlertRule_def addAlert_def lookup_def make_KV_def commonOf_def pruneLabels_def
      pruneAnnotations_def copyInto_def index_def delete_key_def assign_def AlertFiring_def
      AlertResolved_def Let_def sampleData_def sampleAlerts_def sampleHeap_def)

end
